theory Spec2Isabelle
  imports Complex_Main "HOL-Library.AList" "HOL-Library.Sublist"
begin

section \<open>JSON values and the Python operations the three scripts apply to them\<close>

text \<open>
  The three scripts (\<^verbatim>\<open>spine_analyze.py\<close>, \<^verbatim>\<open>spine_refine.py\<close>,
  \<^verbatim>\<open>spine_update_anims.py\<close>) work on the value that \<^verbatim>\<open>json.loads\<close> returns: a tree
  of dicts, lists, strings, numbers, booleans and \<^verbatim>\<open>None\<close>. A dict is kept as the list of
  its items in insertion order. Numbers are real numbers: Python's \<^verbatim>\<open>int\<close> and
  \<^verbatim>\<open>float\<close> are both embedded in \<open>real\<close>, so rounding errors of binary floating
  point, overflow to infinity and the literals \<^verbatim>\<open>NaN\<close> and \<^verbatim>\<open>Infinity\<close> are outside the
  model.
\<close>

datatype json =
    JNull
  | JBool bool
  | JNum real
  | JStr string
  | JArr "json list"
  | JObj "(string \<times> json) list"

text \<open>
  Every function of the scripts runs inside \<^verbatim>\<open>try: ... except Exception\<close> and returns a
  dict. \<open>Failed m\<close> is an explicit \<^verbatim>\<open>return {"status": "error", "message": m}\<close>;
  \<open>Raised\<close> is an exception (KeyError, TypeError, AttributeError, ValueError) caught by the
  handler, whose message text is not modelled.
\<close>

datatype error = Failed string | Raised

definition bindE :: "error + 'a \<Rightarrow> ('a \<Rightarrow> error + 'b) \<Rightarrow> error + 'b" where
  "bindE m f = (case m of Inl e \<Rightarrow> Inl e | Inr v \<Rightarrow> f v)"

text \<open>A \<^verbatim>\<open>for\<close> loop whose body may raise: the first failure ends the loop.\<close>

fun mapE :: "('a \<Rightarrow> error + 'b) \<Rightarrow> 'a list \<Rightarrow> error + 'b list" where
  "mapE f [] = Inr []"
| "mapE f (x # xs) = bindE (f x) (\<lambda>y. bindE (mapE f xs) (\<lambda>ys. Inr (y # ys)))"

fun foldE :: "('s \<Rightarrow> 'a \<Rightarrow> error + 's) \<Rightarrow> 's \<Rightarrow> 'a list \<Rightarrow> error + 's" where
  "foldE f s [] = Inr s"
| "foldE f s (x # xs) = bindE (f s x) (\<lambda>s'. foldE f s' xs)"

text \<open>Truth value of an object (\<^verbatim>\<open>if v\<close>, \<^verbatim>\<open>not v\<close>, \<^verbatim>\<open>a or b\<close>).\<close>

fun truthy :: "json \<Rightarrow> bool" where
  "truthy JNull = False"
| "truthy (JBool b) = b"
| "truthy (JNum r) = (r \<noteq> 0)"
| "truthy (JStr s) = (s \<noteq> [])"
| "truthy (JArr xs) = (xs \<noteq> [])"
| "truthy (JObj kvs) = (kvs \<noteq> [])"

text \<open>\<^verbatim>\<open>needle in haystack\<close> for two strings: a contiguous occurrence.\<close>

fun py_substr :: "string \<Rightarrow> string \<Rightarrow> bool" where
  "py_substr xs [] = (xs = [])"
| "py_substr xs (y # ys) = (if prefix xs (y # ys) then True else py_substr xs ys)"

text \<open>
  \<^verbatim>\<open>'k' in v\<close>: key membership for a dict, element membership for a list, substring for a
  string, TypeError otherwise.
\<close>

fun py_in :: "string \<Rightarrow> json \<Rightarrow> error + bool" where
  "py_in k (JObj kvs) = Inr (k \<in> fst ` set kvs)"
| "py_in k (JArr xs) = Inr (JStr k \<in> set xs)"
| "py_in k (JStr s) = Inr (py_substr k s)"
| "py_in k v = Inl Raised"

text \<open>\<^verbatim>\<open>v['k']\<close>: KeyError for a dict without the key, TypeError for every other value.\<close>

fun py_item :: "json \<Rightarrow> string \<Rightarrow> error + json" where
  "py_item (JObj kvs) k = (case map_of kvs k of Some v \<Rightarrow> Inr v | None \<Rightarrow> Inl Raised)"
| "py_item v k = Inl Raised"

text \<open>\<^verbatim>\<open>v.get('k', d)\<close>: only a dict has the method (AttributeError otherwise).\<close>

fun py_get :: "json \<Rightarrow> string \<Rightarrow> json \<Rightarrow> error + json" where
  "py_get (JObj kvs) k d = (case map_of kvs k of Some v \<Rightarrow> Inr v | None \<Rightarrow> Inr d)"
| "py_get v k d = Inl Raised"

text \<open>
  \<^verbatim>\<open>v['k'] = x\<close>: an existing key keeps its position, a new key goes to the end; values
  other than dicts do not take a string subscript.
\<close>

fun py_set :: "json \<Rightarrow> string \<Rightarrow> json \<Rightarrow> error + json" where
  "py_set (JObj kvs) k x = Inr (JObj (AList.update k x kvs))"
| "py_set v k x = Inl Raised"

text \<open>
  \<^verbatim>\<open>for x in v\<close>: the elements of a list, the keys of a dict, the characters of a string;
  the other values are not iterable.
\<close>

fun py_iter :: "json \<Rightarrow> error + json list" where
  "py_iter (JArr xs) = Inr xs"
| "py_iter (JObj kvs) = Inr (map (\<lambda>kv. JStr (fst kv)) kvs)"
| "py_iter (JStr s) = Inr (map (\<lambda>c. JStr [c]) s)"
| "py_iter v = Inl Raised"

text \<open>
  A loop that mutates the dicts it iterates over changes the elements of a list in place;
  the keys of a dict and the characters of a string are immutable strings.
\<close>

fun py_rebuild :: "json \<Rightarrow> json list \<Rightarrow> json" where
  "py_rebuild (JArr xs) ys = JArr ys"
| "py_rebuild v ys = v"

text \<open>\<^verbatim>\<open>v.items()\<close>: only a dict has the method.\<close>

fun py_items :: "json \<Rightarrow> error + (string \<times> json) list" where
  "py_items (JObj kvs) = Inr kvs"
| "py_items v = Inl Raised"

text \<open>
  \<^verbatim>\<open>float(v)\<close>. The conversion of a string (\<^verbatim>\<open>float("0.5")\<close>, ValueError on a string
  that is no number) is the parameter \<open>pf\<close>.
\<close>

fun py_float :: "(string \<Rightarrow> real option) \<Rightarrow> json \<Rightarrow> error + real" where
  "py_float pf (JNum r) = Inr r"
| "py_float pf (JBool b) = Inr (if b then 1 else 0)"
| "py_float pf (JStr s) = (case pf s of Some r \<Rightarrow> Inr r | None \<Rightarrow> Inl Raised)"
| "py_float pf v = Inl Raised"

text \<open>
  A value used as an operand of arithmetic (\<^verbatim>\<open>abs(v)\<close>, \<^verbatim>\<open>v / 500.0\<close>,
  \<^verbatim>\<open>a - v\<close>): a number, or a bool counting as 0 or 1; TypeError otherwise.
\<close>

fun py_num :: "json \<Rightarrow> error + real" where
  "py_num (JNum r) = Inr r"
| "py_num (JBool b) = Inr (if b then 1 else 0)"
| "py_num v = Inl Raised"

definition py_abs :: "json \<Rightarrow> error + real" where
  "py_abs v = bindE (py_num v) (\<lambda>r. Inr \<bar>r\<bar>)"

definition py_truediv :: "json \<Rightarrow> real \<Rightarrow> error + json" where
  "py_truediv v d = bindE (py_num v) (\<lambda>r. Inr (JNum (r / d)))"

text \<open>
  The key under which a value is stored in a dict or a set: lists and dicts are unhashable
  (TypeError); \<^verbatim>\<open>True == 1\<close> and \<^verbatim>\<open>False == 0\<close> hash alike, so a bool is the key of its
  number.
\<close>

fun py_hash :: "json \<Rightarrow> error + json" where
  "py_hash (JArr xs) = Inl Raised"
| "py_hash (JObj kvs) = Inl Raised"
| "py_hash (JBool b) = Inr (JNum (if b then 1 else 0))"
| "py_hash v = Inr v"

section \<open>The translation sanitation shared by Detect and Regenerate\<close>

text \<open>
  \<^verbatim>\<open>spine_analyze.py\<close> lines 166-178 and \<^verbatim>\<open>spine_update_anims.py\<close> lines 196-206, the
  same statements in both files:
  \<^verbatim>\<open>
  tx = transform.get('translateX', 0)
  ty = transform.get('translateY', 0)
  if abs(tx) > 1.0 or abs(ty) > 1.0:
      print("WARNING ...", file=sys.stderr)
      tx = tx / 500.0
      ty = ty / 500.0
  transform['translateX'] = max(-0.1, min(0.1, float(tx)))
  transform['translateY'] = max(-0.1, min(0.1, float(ty)))
  \<close>
  \<open>looks_like_pixels\<close> is the condition with its short circuit, \<open>unit_heuristic\<close> the pair
  \<open>(tx, ty)\<close> after the \<^verbatim>\<open>if\<close>. The warning goes to stderr and is not part of the result.
\<close>

definition looks_like_pixels :: "json \<Rightarrow> json \<Rightarrow> error + bool" where
  "looks_like_pixels tx ty =
     bindE (py_abs tx) (\<lambda>ax.
       if 1 < ax then Inr True else bindE (py_abs ty) (\<lambda>ay. Inr (1 < ay)))"

definition unit_heuristic :: "json \<Rightarrow> json \<Rightarrow> error + json \<times> json" where
  "unit_heuristic tx ty =
     bindE (looks_like_pixels tx ty) (\<lambda>pixels.
       if pixels
       then bindE (py_truediv tx 500) (\<lambda>tx'.
            bindE (py_truediv ty 500) (\<lambda>ty'. Inr (tx', ty')))
       else Inr (tx, ty))"

definition clamp_translate :: "real \<Rightarrow> real" where
  "clamp_translate r = max (- 0.1) (min 0.1 r)"

definition sanitize_transform :: "(string \<Rightarrow> real option) \<Rightarrow> json \<Rightarrow> error + json" where
  "sanitize_transform pf transform =
     bindE (py_get transform ''translateX'' (JNum 0)) (\<lambda>tx0.
     bindE (py_get transform ''translateY'' (JNum 0)) (\<lambda>ty0.
     bindE (unit_heuristic tx0 ty0) (\<lambda>(tx, ty).
     bindE (py_float pf tx) (\<lambda>fx.
     bindE (py_set transform ''translateX'' (JNum (clamp_translate fx))) (\<lambda>t1.
     bindE (py_float pf ty) (\<lambda>fy.
     py_set t1 ''translateY'' (JNum (clamp_translate fy))))))))"

text \<open>
  Each loop around the transform mutates dicts in place. \<open>py_mutated d k v\<close> is the dict
  \<open>d\<close> after the object it stores under \<open>k\<close> has been mutated into \<open>v\<close>; when \<open>d\<close> has
  no key \<open>k\<close> the loop worked on the fresh default of \<^verbatim>\<open>d.get(k, default)\<close> and \<open>d\<close> is
  unchanged.
\<close>

fun py_mutated :: "json \<Rightarrow> string \<Rightarrow> json \<Rightarrow> json" where
  "py_mutated (JObj kvs) k v =
     (case map_of kvs k of Some old \<Rightarrow> JObj (AList.update k v kvs) | None \<Rightarrow> JObj kvs)"
| "py_mutated d k v = d"

text \<open>
  \<^verbatim>\<open>if 'k' not in data or not data['k']\<close>, the presence check of the three scripts.
\<close>

definition absent_or_empty :: "string \<Rightarrow> json \<Rightarrow> error + bool" where
  "absent_or_empty k data =
     bindE (py_in k data) (\<lambda>present.
       if \<not> present then Inr True
       else bindE (py_item data k) (\<lambda>v. Inr (\<not> truthy v)))"

text \<open>\<^verbatim>\<open>{a['id'] for a in anchors}\<close> (analyze line 152, update_anims line 188).\<close>

definition anchor_id_set :: "json \<Rightarrow> error + json set" where
  "anchor_id_set anchors =
     bindE (py_iter anchors) (\<lambda>as.
     bindE (mapE (\<lambda>a. bindE (py_item a ''id'') py_hash) as) (\<lambda>ks.
     Inr (set ks)))"

section \<open>Detect: \<^verbatim>\<open>analyze_image\<close> (spine_analyze.py)\<close>

definition clamp01 :: "real \<Rightarrow> real" where
  "clamp01 r = max 0 (min 1 r)"

text \<open>
  \<^verbatim>\<open>anchor.get('label', 'anchor').lower().replace(' ', '_')\<close>: only a string has
  \<^verbatim>\<open>lower\<close>. The case mapping of \<^verbatim>\<open>str.lower\<close> is the parameter \<open>lw\<close>.
\<close>

fun derive_id :: "(string \<Rightarrow> string) \<Rightarrow> json \<Rightarrow> error + string" where
  "derive_id lw (JStr s) = Inr (map (\<lambda>c. if c = CHR '' '' then CHR ''_'' else c) (lw s))"
| "derive_id lw v = Inl Raised"

text \<open>
  Lines 144-149, the body of \<^verbatim>\<open>for anchor in data['anchors']\<close>, the two
  assignments first and the two defaults after them:
  \<^verbatim>\<open>
  anchor['x'] = max(0.0, min(1.0, float(anchor.get('x', 0.5))))
  anchor['y'] = max(0.0, min(1.0, float(anchor.get('y', 0.5))))
  if 'type' not in anchor:
      anchor['type'] = 'joint'
  if 'id' not in anchor:
      anchor['id'] = anchor.get('label', 'anchor').lower().replace(' ', '_')
  \<close>
\<close>

definition clamp_anchor_coords :: "(string \<Rightarrow> real option) \<Rightarrow> json \<Rightarrow> error + json" where
  "clamp_anchor_coords pf anchor =
     bindE (py_get anchor ''x'' (JNum 0.5)) (\<lambda>vx.
     bindE (py_float pf vx) (\<lambda>fx.
     bindE (py_set anchor ''x'' (JNum (clamp01 fx))) (\<lambda>a1.
     bindE (py_get a1 ''y'' (JNum 0.5)) (\<lambda>vy.
     bindE (py_float pf vy) (\<lambda>fy.
     py_set a1 ''y'' (JNum (clamp01 fy)))))))"

definition default_type_and_id :: "(string \<Rightarrow> string) \<Rightarrow> json \<Rightarrow> error + json" where
  "default_type_and_id lw a2 =
     bindE (py_in ''type'' a2) (\<lambda>has_type.
     bindE (if has_type then Inr a2 else py_set a2 ''type'' (JStr ''joint'')) (\<lambda>a3.
     bindE (py_in ''id'' a3) (\<lambda>has_id.
       if has_id then Inr a3
       else bindE (py_get a3 ''label'' (JStr ''anchor'')) (\<lambda>label.
            bindE (derive_id lw label) (\<lambda>i.
            py_set a3 ''id'' (JStr i))))))"

definition sanitize_anchor ::
  "(string \<Rightarrow> real option) \<Rightarrow> (string \<Rightarrow> string) \<Rightarrow> json \<Rightarrow> error + json" where
  "sanitize_anchor pf lw anchor =
     bindE (clamp_anchor_coords pf anchor) (default_type_and_id lw)"

text \<open>Lines 143-149: the loop; the result is \<^verbatim>\<open>data['anchors']\<close> after it.\<close>

definition detect_anchors ::
  "(string \<Rightarrow> real option) \<Rightarrow> (string \<Rightarrow> string) \<Rightarrow> json \<Rightarrow> error + json" where
  "detect_anchors pf lw data =
     bindE (py_item data ''anchors'') (\<lambda>av.
     bindE (py_iter av) (\<lambda>as.
     bindE (mapE (sanitize_anchor pf lw) as) (\<lambda>as'.
     Inr (py_rebuild av as'))))"

text \<open>
  Line 155, \<^verbatim>\<open>bone.get('from') in anchor_ids and bone.get('to') in anchor_ids\<close>:
  \<^verbatim>\<open>and\<close> does not evaluate its right operand when the left one is false.
\<close>

definition bone_valid :: "json set \<Rightarrow> json \<Rightarrow> error + bool" where
  "bone_valid ids bone =
     bindE (py_get bone ''from'' JNull) (\<lambda>f.
     bindE (py_hash f) (\<lambda>fk.
       if fk \<notin> ids then Inr False
       else bindE (py_get bone ''to'' JNull) (\<lambda>t.
            bindE (py_hash t) (\<lambda>tk. Inr (tk \<in> ids)))))"

fun filterE :: "('a \<Rightarrow> error + bool) \<Rightarrow> 'a list \<Rightarrow> error + 'a list" where
  "filterE p [] = Inr []"
| "filterE p (x # xs) =
     bindE (p x) (\<lambda>keep.
     bindE (filterE p xs) (\<lambda>ys. Inr (if keep then x # ys else ys)))"

text \<open>Lines 152-157: the list \<^verbatim>\<open>valid_bones\<close>.\<close>

definition detect_bones :: "json \<Rightarrow> json \<Rightarrow> error + json list" where
  "detect_bones anchors data =
     bindE (anchor_id_set anchors) (\<lambda>ids.
     bindE (py_item data ''bones'') (\<lambda>bv.
     bindE (py_iter bv) (\<lambda>bs.
     filterE (bone_valid ids) bs)))"

text \<open>
  Lines 163-178. The transforms are mutated inside the dict stored under
  \<^verbatim>\<open>'anchors'\<close> of each keyframe; no entry is removed.
\<close>

definition sanitize_item ::
  "(string \<Rightarrow> real option) \<Rightarrow> string \<times> json \<Rightarrow> error + string \<times> json" where
  "sanitize_item pf kt = bindE (sanitize_transform pf (snd kt)) (\<lambda>t'. Inr (fst kt, t'))"

definition detect_keyframe :: "(string \<Rightarrow> real option) \<Rightarrow> json \<Rightarrow> error + json" where
  "detect_keyframe pf kf =
     bindE (py_get kf ''anchors'' (JObj [])) (\<lambda>av.
     bindE (py_items av) (\<lambda>items.
     bindE (mapE (sanitize_item pf) items) (\<lambda>items'.
     Inr (py_mutated kf ''anchors'' (JObj items')))))"

definition detect_animation :: "(string \<Rightarrow> real option) \<Rightarrow> json \<Rightarrow> error + json" where
  "detect_animation pf anim =
     bindE (py_get anim ''keyframes'' (JArr [])) (\<lambda>kv.
     bindE (py_iter kv) (\<lambda>kfs.
     bindE (mapE (detect_keyframe pf) kfs) (\<lambda>kfs'.
     Inr (py_mutated anim ''keyframes'' (py_rebuild kv kfs')))))"

definition detect_animations :: "(string \<Rightarrow> real option) \<Rightarrow> json \<Rightarrow> error + json" where
  "detect_animations pf data =
     bindE (py_get data ''animations'' (JArr [])) (\<lambda>mv.
     bindE (py_iter mv) (\<lambda>anims.
     bindE (mapE (detect_animation pf) anims) (\<lambda>anims'.
     Inr (py_rebuild mv anims'))))"

text \<open>
  \<^verbatim>\<open>analyze_image\<close> from line 132 on: \<open>data\<close> is the parsed model response. The
  credential and image checks, the prompt and the call of the model (lines 30-129) are the
  environment that produces \<open>data\<close>; when one of them fails, or the response is no JSON
  (lines 189-190), the operation returns an error result before it reaches these lines.
\<close>

definition analyze_image ::
  "(string \<Rightarrow> real option) \<Rightarrow> (string \<Rightarrow> string) \<Rightarrow> json \<Rightarrow> error + json" where
  "analyze_image pf lw data =
     bindE (absent_or_empty ''anchors'' data) (\<lambda>no_anchors.
     if no_anchors then Inl (Failed ''AI did not detect any anchor points'') else
     bindE (absent_or_empty ''bones'' data) (\<lambda>no_bones.
     if no_bones then Inl (Failed ''AI did not detect any bones'') else
     bindE (absent_or_empty ''animations'' data) (\<lambda>no_animations.
     if no_animations then Inl (Failed ''AI did not generate any animations'') else
     bindE (detect_anchors pf lw data) (\<lambda>anchors.
     bindE (detect_bones anchors data) (\<lambda>valid_bones.
     if \<not> truthy (JArr valid_bones) then Inl (Failed ''No valid bones after validation'') else
     bindE (detect_animations pf data) (\<lambda>animations.
     bindE (py_get data ''image_type'' (JStr ''unknown'')) (\<lambda>image_type.
     bindE (py_get data ''description'' (JStr [])) (\<lambda>description.
     Inr (JObj [(''status'', JStr ''success''),
                (''image_type'', image_type),
                (''description'', description),
                (''anchors'', anchors),
                (''bones'', JArr valid_bones),
                (''animations'', animations)])))))))))"

section \<open>Regenerate: \<^verbatim>\<open>update_animations\<close> (spine_update_anims.py)\<close>

text \<open>
  Lines 192-208, the body of \<^verbatim>\<open>for kf in anim.get('keyframes', [])\<close>:
  \<^verbatim>\<open>
  valid_anchors = {}
  for anchor_id, transform in kf.get('anchors', {}).items():
      if anchor_id not in anchor_ids:
          continue
      ...                                   # the translation sanitation
      valid_anchors[anchor_id] = transform
  kf['anchors'] = valid_anchors
  \<close>
\<close>

definition regen_item ::
  "(string \<Rightarrow> real option) \<Rightarrow> json set \<Rightarrow> (string \<times> json) list \<Rightarrow> string \<times> json
     \<Rightarrow> error + (string \<times> json) list" where
  "regen_item pf ids valid_anchors kt =
     (if JStr (fst kt) \<notin> ids then Inr valid_anchors
      else bindE (sanitize_transform pf (snd kt)) (\<lambda>t'.
           Inr (AList.update (fst kt) t' valid_anchors)))"

definition regen_keyframe ::
  "(string \<Rightarrow> real option) \<Rightarrow> json set \<Rightarrow> json \<Rightarrow> error + json" where
  "regen_keyframe pf ids kf =
     bindE (py_get kf ''anchors'' (JObj [])) (\<lambda>av.
     bindE (py_items av) (\<lambda>items.
     bindE (foldE (regen_item pf ids) [] items) (\<lambda>valid_anchors.
     py_set kf ''anchors'' (JObj valid_anchors))))"

definition regen_animation ::
  "(string \<Rightarrow> real option) \<Rightarrow> json set \<Rightarrow> json \<Rightarrow> error + json" where
  "regen_animation pf ids anim =
     bindE (py_get anim ''keyframes'' (JArr [])) (\<lambda>kv.
     bindE (py_iter kv) (\<lambda>kfs.
     bindE (mapE (regen_keyframe pf ids) kfs) (\<lambda>kfs'.
     Inr (py_mutated anim ''keyframes'' (py_rebuild kv kfs')))))"

text \<open>
  \<^verbatim>\<open>update_animations\<close>: \<open>anchors\<close> is the parsed \<^verbatim>\<open>--anchors\<close> argument (line 41, checked
  at line 44), \<open>data\<close> the parsed model response (line 182). The overlay drawing, the
  prompt and the call of the model in between read \<open>anchors\<close> and the bones and change
  neither.
\<close>

definition update_animations ::
  "(string \<Rightarrow> real option) \<Rightarrow> json \<Rightarrow> json \<Rightarrow> error + json" where
  "update_animations pf anchors data =
     (if \<not> truthy anchors then Inl (Failed ''No anchors provided'') else
      bindE (absent_or_empty ''animations'' data) (\<lambda>no_animations.
      if no_animations then Inl (Failed ''AI did not generate any animations'') else
      bindE (anchor_id_set anchors) (\<lambda>ids.
      bindE (py_item data ''animations'') (\<lambda>mv.
      bindE (py_iter mv) (\<lambda>anims.
      bindE (mapE (regen_animation pf ids) anims) (\<lambda>anims'.
      Inr (JObj [(''status'', JStr ''success''),
                 (''animations'', py_rebuild mv anims')])))))))"

section \<open>Refine: \<^verbatim>\<open>refine_anchors\<close> (spine_refine.py)\<close>

text \<open>
  Line 150, \<^verbatim>\<open>corrected_map = {a['id']: a for a in corrected_anchors}\<close>: a later
  correction with the same id replaces the earlier one.
\<close>

definition add_correction :: "(json \<times> json) list \<Rightarrow> json \<Rightarrow> error + (json \<times> json) list" where
  "add_correction m a =
     bindE (py_item a ''id'') (\<lambda>i.
     bindE (py_hash i) (\<lambda>k.
     Inr (AList.update k a m)))"

definition corrected_map_of :: "json \<Rightarrow> error + (json \<times> json) list" where
  "corrected_map_of corrected_anchors =
     bindE (py_iter corrected_anchors) (foldE add_correction [])"

text \<open>\<^verbatim>\<open>corrected_map.get(aid)\<close>: \<^verbatim>\<open>None\<close> when the id has no correction.\<close>

definition map_get :: "(json \<times> json) list \<Rightarrow> json \<Rightarrow> error + json" where
  "map_get m aid =
     bindE (py_hash aid) (\<lambda>k.
     Inr (case map_of m k of Some c \<Rightarrow> c | None \<Rightarrow> JNull))"

text \<open>The three variables the loop of lines 156-179 updates.\<close>

record merge_state =
  total_movement :: real
  corrected_count :: nat
  result_anchors :: "json list"

definition euclid :: "real \<Rightarrow> real \<Rightarrow> real \<Rightarrow> real \<Rightarrow> real" where
  "euclid new_x new_y ox oy = sqrt ((new_x - ox)\<^sup>2 + (new_y - oy)\<^sup>2)"

text \<open>
  Lines 160-171, the branch \<^verbatim>\<open>if corrected:\<close>
  \<^verbatim>\<open>
  new_x = max(0.0, min(1.0, float(corrected.get('x', orig['x']))))
  new_y = max(0.0, min(1.0, float(corrected.get('y', orig['y']))))
  dist = math.sqrt((new_x - orig['x']) ** 2 + (new_y - orig['y']) ** 2)
  total_movement += dist
  if corrected.get('corrected', False) or dist > 0.005:
      corrected_count += 1
  result_anchors.append({'id': aid, 'x': new_x, 'y': new_y,
                         'corrected': corrected.get('corrected', dist > 0.005)})
  \<close>
  The default \<^verbatim>\<open>orig['x']\<close> is evaluated before \<^verbatim>\<open>get\<close> is called.
\<close>

definition merge_corrected ::
  "(string \<Rightarrow> real option) \<Rightarrow> merge_state \<Rightarrow> json \<Rightarrow> json \<Rightarrow> json \<Rightarrow> error + merge_state" where
  "merge_corrected pf st orig aid corrected =
     bindE (py_item orig ''x'') (\<lambda>ox.
     bindE (py_get corrected ''x'' ox) (\<lambda>vx.
     bindE (py_float pf vx) (\<lambda>fx.
     bindE (py_item orig ''y'') (\<lambda>oy.
     bindE (py_get corrected ''y'' oy) (\<lambda>vy.
     bindE (py_float pf vy) (\<lambda>fy.
     bindE (py_num ox) (\<lambda>oxr.
     bindE (py_num oy) (\<lambda>oyr.
     let new_x = clamp01 fx;
         new_y = clamp01 fy;
         dist = euclid new_x new_y oxr oyr
     in
     bindE (py_get corrected ''corrected'' (JBool False)) (\<lambda>flag.
     bindE (py_get corrected ''corrected'' (JBool (0.005 < dist))) (\<lambda>out_flag.
     Inr \<lparr> total_movement = total_movement st + dist,
           corrected_count =
             (if truthy flag \<or> 0.005 < dist
              then corrected_count st + 1 else corrected_count st),
           result_anchors = result_anchors st @
             [JObj [(''id'', aid), (''x'', JNum new_x), (''y'', JNum new_y),
                    (''corrected'', out_flag)]] \<rparr>))))))))))"

text \<open>Lines 174-179, the branch \<^verbatim>\<open>else:\<close> the anchor is kept as it is.\<close>

definition merge_kept :: "merge_state \<Rightarrow> json \<Rightarrow> json \<Rightarrow> error + merge_state" where
  "merge_kept st orig aid =
     bindE (py_item orig ''x'') (\<lambda>ox.
     bindE (py_item orig ''y'') (\<lambda>oy.
     Inr (st \<lparr> result_anchors := result_anchors st @
             [JObj [(''id'', aid), (''x'', ox), (''y'', oy),
                    (''corrected'', JBool False)]] \<rparr>)))"

text \<open>Lines 157-179, the body of \<^verbatim>\<open>for orig in anchors\<close>.\<close>

definition merge_anchor ::
  "(string \<Rightarrow> real option) \<Rightarrow> (json \<times> json) list \<Rightarrow> merge_state \<Rightarrow> json \<Rightarrow> error + merge_state"
  where
  "merge_anchor pf corrected_map st orig =
     bindE (py_item orig ''id'') (\<lambda>aid.
     bindE (map_get corrected_map aid) (\<lambda>corrected.
     if truthy corrected then merge_corrected pf st orig aid corrected
     else merge_kept st orig aid))"

text \<open>
  Lines 149-186, the anchor-refinement merge: \<open>anchors\<close> is the original anchor list,
  \<open>corrected_anchors\<close> is \<^verbatim>\<open>data['anchors']\<close>. Line 185 passes the sum through Python's
  built-in \<^verbatim>\<open>round(total_movement, 6)\<close>, which rounds the binary double that holds the
  sum: that function is the parameter \<open>rnd\<close>.
\<close>

definition merge_anchors ::
  "(string \<Rightarrow> real option) \<Rightarrow> (real \<Rightarrow> real) \<Rightarrow> json \<Rightarrow> json \<Rightarrow> error + json" where
  "merge_anchors pf rnd anchors corrected_anchors =
     bindE (corrected_map_of corrected_anchors) (\<lambda>corrected_map.
     bindE (py_iter anchors) (\<lambda>origs.
     bindE (foldE (merge_anchor pf corrected_map)
              \<lparr> total_movement = 0, corrected_count = 0, result_anchors = [] \<rparr> origs) (\<lambda>st.
     Inr (JObj [(''status'', JStr ''success''),
                (''anchors'', JArr (result_anchors st)),
                (''corrected_count'', JNum (real (corrected_count st))),
                (''total_movement'', JNum (rnd (total_movement st)))]))))"

text \<open>
  \<^verbatim>\<open>refine_anchors\<close>: \<open>anchors\<close> is the parsed \<^verbatim>\<open>--anchors\<close> argument (line 37, checked
  at line 38), \<open>data\<close> the parsed model response (line 143). The overlay drawing, the
  prompt and the call of the model in between read \<open>anchors\<close> and do not change it.
\<close>

definition refine_anchors ::
  "(string \<Rightarrow> real option) \<Rightarrow> (real \<Rightarrow> real) \<Rightarrow> json \<Rightarrow> json \<Rightarrow> error + json" where
  "refine_anchors pf rnd anchors data =
     (if \<not> truthy anchors then Inl (Failed ''No anchors provided'') else
      bindE (absent_or_empty ''anchors'' data) (\<lambda>no_anchors.
      if no_anchors then Inl (Failed ''AI did not return anchor corrections'') else
      bindE (py_item data ''anchors'') (\<lambda>corrected_anchors.
      merge_anchors pf rnd anchors corrected_anchors)))"

section \<open>The command line: \<^verbatim>\<open>main\<close> of the three scripts\<close>

text \<open>
  The dict that the operation returns and \<^verbatim>\<open>main\<close> prints. \<open>exc_msg\<close> stands for the
  text \<^verbatim>\<open>str(e)\<close> of a caught exception.
\<close>

fun result_dict :: "string \<Rightarrow> error + json \<Rightarrow> json" where
  "result_dict exc_msg (Inr d) = d"
| "result_dict exc_msg (Inl (Failed m)) =
     JObj [(''status'', JStr ''error''), (''message'', JStr m)]"
| "result_dict exc_msg (Inl Raised) =
     JObj [(''status'', JStr ''error''), (''message'', JStr exc_msg)]"

text \<open>
  \<^verbatim>\<open>if result.get("status") == "error": sys.exit(1)\<close>; a script that reaches its end
  exits with code 0.
\<close>

definition main_exit :: "json \<Rightarrow> nat" where
  "main_exit result =
     (case py_get result ''status'' JNull of
        Inr status \<Rightarrow> if status = JStr ''error'' then 1 else 0
      | Inl e \<Rightarrow> 1)"

section \<open>Reading results\<close>

text \<open>
  The properties below are about the dicts the operations return. \<open>fld d k\<close> reads a key
  (\<open>JNull\<close> when \<open>d\<close> is no dict or has no such key), \<open>elems\<close> the elements of a list,
  \<open>entries\<close> the items of a dict.
\<close>

fun fld :: "json \<Rightarrow> string \<Rightarrow> json" where
  "fld (JObj kvs) k = (case map_of kvs k of Some v \<Rightarrow> v | None \<Rightarrow> JNull)"
| "fld v k = JNull"

fun elems :: "json \<Rightarrow> json list" where
  "elems (JArr xs) = xs"
| "elems v = []"

fun entries :: "json \<Rightarrow> (string \<times> json) list" where
  "entries (JObj kvs) = kvs"
| "entries v = []"

text \<open>
  The transforms of a keyframe, the keyframes of an animation, the animations of a result,
  and every transform of every keyframe of every animation of a result.
\<close>

definition keyframe_transforms :: "json \<Rightarrow> json list" where
  "keyframe_transforms kf = map snd (entries (fld kf ''anchors''))"

definition animation_keyframes :: "json \<Rightarrow> json list" where
  "animation_keyframes anim = elems (fld anim ''keyframes'')"

definition result_animations :: "json \<Rightarrow> json list" where
  "result_animations res = elems (fld res ''animations'')"

definition result_transforms :: "json \<Rightarrow> json list" where
  "result_transforms res =
     concat (map (\<lambda>anim. concat (map keyframe_transforms (animation_keyframes anim)))
                 (result_animations res))"

text \<open>Both translations of a transform are numbers of the interval \<open>[-0.1, 0.1]\<close>.\<close>

definition translate_in_range :: "json \<Rightarrow> bool" where
  "translate_in_range t =
     (case (fld t ''translateX'', fld t ''translateY'') of
        (JNum x, JNum y) \<Rightarrow> - 0.1 \<le> x \<and> x \<le> 0.1 \<and> - 0.1 \<le> y \<and> y \<le> 0.1
      | _ \<Rightarrow> False)"

definition keyframe_in_range :: "json \<Rightarrow> bool" where
  "keyframe_in_range kf = list_all translate_in_range (keyframe_transforms kf)"

definition animation_in_range :: "json \<Rightarrow> bool" where
  "animation_in_range anim = list_all keyframe_in_range (animation_keyframes anim)"


text \<open>
  The keys of the ids of a list of anchors: the set of line 152 of \<^verbatim>\<open>spine_analyze.py\<close>
  and of line 188 of \<^verbatim>\<open>spine_update_anims.py\<close>.
\<close>

definition anchor_keys :: "json list \<Rightarrow> json set" where
  "anchor_keys as =
     set (concat (map (\<lambda>a. case py_hash (fld a ''id'') of Inr k \<Rightarrow> [k] | Inl e \<Rightarrow> []) as))"

text \<open>
  The anchor ids a keyframe gives transforms for, and the keyframes of a response or of a
  result, animation by animation.
\<close>

definition kf_keys :: "json \<Rightarrow> string set" where
  "kf_keys kf = fst ` set (entries (fld kf ''anchors''))"

definition keyframes_of :: "json \<Rightarrow> json list list" where
  "keyframes_of d = map animation_keyframes (result_animations d)"

section \<open>Example inputs\<close>

text \<open>
  A model response for Detect: the first anchor lies below the image, the second has no
  \<^verbatim>\<open>x\<close> and no \<^verbatim>\<open>id\<close>; the second bone ends at an unknown anchor; the keyframe moves
  \<^verbatim>\<open>hip\<close> by a pixel offset and names an anchor \<^verbatim>\<open>ghost\<close> that does not exist.
\<close>

definition example_keyframe :: json where
  "example_keyframe =
     JObj [(''time'', JNum 0),
           (''anchors'', JObj
              [(''hip'', JObj [(''rotation'', JNum 5), (''translateX'', JNum 120),
                               (''translateY'', JNum 0.05)]),
               (''ghost'', JObj [(''translateY'', JNum (- 0.3))])])]"

definition example_animations :: json where
  "example_animations =
     JArr [JObj [(''name'', JStr ''sway''), (''keyframes'', JArr [example_keyframe])]]"

definition detect_example :: json where
  "detect_example =
     JObj [(''anchors'', JArr
              [JObj [(''id'', JStr ''hip''), (''x'', JNum 0.5), (''y'', JNum 1.4)],
               JObj [(''label'', JStr ''left knee''), (''y'', JNum 0.8)]]),
           (''bones'', JArr
              [JObj [(''id'', JStr ''thigh''), (''from'', JStr ''hip''),
                     (''to'', JStr ''left_knee'')],
               JObj [(''id'', JStr ''loose''), (''from'', JStr ''hip''),
                     (''to'', JStr ''tail'')]]),
           (''animations'', example_animations)]"

text \<open>The \<^verbatim>\<open>--anchors\<close> argument and a model response for Regenerate.\<close>

definition regen_anchors :: json where
  "regen_anchors = JArr [JObj [(''id'', JStr ''hip''), (''x'', JNum 0.5), (''y'', JNum 0.5)]]"

definition regen_example :: json where
  "regen_example = JObj [(''animations'', example_animations)]"

text \<open>
  The examples contain no number written as a string, so the string conversion of
  \<^verbatim>\<open>float\<close> is never called on them, and only lower-case labels.
\<close>

definition no_float :: "string \<Rightarrow> real option" where
  "no_float s = None"

definition lower_id :: "string \<Rightarrow> string" where
  "lower_id s = s"

text \<open>
  A response with anchors and bones but without the key \<^verbatim>\<open>animations\<close>, and a response
  whose only anchor has the id \<^verbatim>\<open>null\<close> and whose only bone has neither \<^verbatim>\<open>from\<close> nor
  \<^verbatim>\<open>to\<close>.
\<close>

definition no_animations_example :: json where
  "no_animations_example =
     JObj [(''anchors'', JArr [JObj [(''id'', JStr ''hip''), (''x'', JNum 0.5), (''y'', JNum 0.5)]]),
           (''bones'', JArr [JObj [(''id'', JStr ''spine''), (''from'', JStr ''hip''),
                                   (''to'', JStr ''hip'')]])]"

definition null_id_example :: json where
  "null_id_example =
     JObj [(''anchors'', JArr [JObj [(''id'', JNull), (''x'', JNum 0.5), (''y'', JNum 0.5)]]),
           (''bones'', JArr [JObj [(''id'', JStr ''b'')]]),
           (''animations'', example_animations)]"


section \<open>The anchor-refinement merge as the specification words it\<close>

text \<open>
  The notions of the specification's merge algorithm (section 4.1, steps 1 to 3), defined
  on the original anchor \<open>orig\<close> and the correction map \<open>cm\<close> of line 150 without the
  loop and its three variables. \<open>real_of\<close> reads a coordinate as a number.
\<close>

definition anchors_of :: "json \<Rightarrow> json list" where
  "anchors_of res = elems (fld res ''anchors'')"

definition bones_of :: "json \<Rightarrow> json list" where
  "bones_of res = elems (fld res ''bones'')"

definition has_key :: "json \<Rightarrow> string \<Rightarrow> bool" where
  "has_key d k = (k \<in> fst ` set (entries d))"

definition get_or :: "json \<Rightarrow> string \<Rightarrow> json \<Rightarrow> json" where
  "get_or d k dflt = (case map_of (entries d) k of Some v \<Rightarrow> v | None \<Rightarrow> dflt)"

definition real_of :: "(string \<Rightarrow> real option) \<Rightarrow> json \<Rightarrow> real" where
  "real_of pf v = (case py_float pf v of Inr r \<Rightarrow> r | Inl e \<Rightarrow> 0)"

text \<open>
  "Rounded to 6 decimal digits": the value is a multiple of \<open>10\<^sup>-\<^sup>6\<close> and lies no
  farther than half of \<open>10\<^sup>-\<^sup>6\<close> from the number. Which neighbour a number exactly
  halfway between two multiples gets is left open: \<^verbatim>\<open>round\<close> decides it on the binary
  double that holds the number.
\<close>

definition rounds_to_6_digits :: "(real \<Rightarrow> real) \<Rightarrow> bool" where
  "rounds_to_6_digits rnd =
     (\<forall>r. (\<exists>n::int. rnd r = of_int n / 1000000) \<and> \<bar>rnd r - r\<bar> \<le> 1 / 2000000)"

text \<open>Both coordinates of an anchor are numbers of the interval \<open>[0, 1]\<close>.\<close>

definition unit_coords :: "json \<Rightarrow> bool" where
  "unit_coords a =
     (case (fld a ''x'', fld a ''y'') of
        (JNum x, JNum y) \<Rightarrow> 0 \<le> x \<and> x \<le> 1 \<and> 0 \<le> y \<and> y \<le> 1
      | _ \<Rightarrow> False)"

text \<open>"If a correction exists for that id": the entry of the correction map.\<close>

definition correction_of :: "(json \<times> json) list \<Rightarrow> json \<Rightarrow> json option" where
  "correction_of cm orig =
     (case py_hash (fld orig ''id'') of Inr k \<Rightarrow> map_of cm k | Inl e \<Rightarrow> None)"

text \<open>
  "Build a mapping from anchor id to corrected anchor, from the model's response": the
  correction in the response that has the anchor's id, the last one when the response
  repeats an id.
\<close>

definition last_correction :: "json list \<Rightarrow> json \<Rightarrow> json option" where
  "last_correction cs orig =
     (case py_hash (fld orig ''id'') of
        Inr k \<Rightarrow> find (\<lambda>a. py_hash (fld a ''id'') = Inr k) (rev cs)
      | Inl e \<Rightarrow> None)"

text \<open>
  "Clamp its x, y into [0,1]": the corrected position; a coordinate the correction does
  not give is the original one.
\<close>

definition spec_corrected_x :: "(string \<Rightarrow> real option) \<Rightarrow> json \<Rightarrow> json \<Rightarrow> real" where
  "spec_corrected_x pf orig corr = clamp01 (real_of pf (get_or corr ''x'' (fld orig ''x'')))"

definition spec_corrected_y :: "(string \<Rightarrow> real option) \<Rightarrow> json \<Rightarrow> json \<Rightarrow> real" where
  "spec_corrected_y pf orig corr = clamp01 (real_of pf (get_or corr ''y'' (fld orig ''y'')))"

text \<open>
  "Compute Euclidean displacement \<open>dist = sqrt((x'-x)\<^sup>2 + (y'-y)\<^sup>2)\<close> between
  original and corrected position."
\<close>

definition spec_displacement :: "(string \<Rightarrow> real option) \<Rightarrow> json \<Rightarrow> json \<Rightarrow> real" where
  "spec_displacement pf orig corr =
     sqrt ((spec_corrected_x pf orig corr - real_of pf (fld orig ''x''))\<^sup>2 +
           (spec_corrected_y pf orig corr - real_of pf (fld orig ''y''))\<^sup>2)"

text \<open>What an anchor adds to \<^verbatim>\<open>total_movement\<close>: nothing without a correction.\<close>

definition spec_movement ::
  "(string \<Rightarrow> real option) \<Rightarrow> (json \<times> json) list \<Rightarrow> json \<Rightarrow> real" where
  "spec_movement pf cm orig =
     (case correction_of cm orig of
        Some corr \<Rightarrow> spec_displacement pf orig corr
      | None \<Rightarrow> 0)"

text \<open>
  "Mark the anchor corrected if the model's own corrected flag is true or
  \<open>dist > 0.005\<close>."
\<close>

definition spec_marked :: "(string \<Rightarrow> real option) \<Rightarrow> json \<Rightarrow> json \<Rightarrow> bool" where
  "spec_marked pf orig corr =
     (truthy (fld corr ''corrected'') \<or> 0.005 < spec_displacement pf orig corr)"

definition spec_counted ::
  "(string \<Rightarrow> real option) \<Rightarrow> (json \<times> json) list \<Rightarrow> json \<Rightarrow> bool" where
  "spec_counted pf cm orig =
     (case correction_of cm orig of
        Some corr \<Rightarrow> spec_marked pf orig corr
      | None \<Rightarrow> False)"

text \<open>
  The dict the loop appends for an anchor: lines 174-179 without a correction, lines
  166-171 with one.
\<close>

definition kept_entry :: "json \<Rightarrow> json" where
  "kept_entry orig =
     JObj [(''id'', fld orig ''id''), (''x'', fld orig ''x''), (''y'', fld orig ''y''),
           (''corrected'', JBool False)]"

definition corrected_entry :: "(string \<Rightarrow> real option) \<Rightarrow> json \<Rightarrow> json \<Rightarrow> json" where
  "corrected_entry pf orig corr =
     JObj [(''id'', fld orig ''id''),
           (''x'', JNum (spec_corrected_x pf orig corr)),
           (''y'', JNum (spec_corrected_y pf orig corr)),
           (''corrected'',
              get_or corr ''corrected'' (JBool (0.005 < spec_displacement pf orig corr)))]"

definition merged_entry ::
  "(string \<Rightarrow> real option) \<Rightarrow> (json \<times> json) list \<Rightarrow> json \<Rightarrow> json" where
  "merged_entry pf cm orig =
     (case correction_of cm orig of
        Some corr \<Rightarrow> corrected_entry pf orig corr
      | None \<Rightarrow> kept_entry orig)"

text \<open>
  An entry of a result list whose id can be a key of the correction map and whose
  coordinates are numbers of the interval \<open>[0, 1]\<close>.
\<close>

definition settled_entry :: "json \<Rightarrow> bool" where
  "settled_entry a =
     (\<exists>aid k x y flag.
        a = JObj [(''id'', aid), (''x'', JNum x), (''y'', JNum y), (''corrected'', flag)] \<and>
        py_hash aid = Inr k \<and> 0 \<le> x \<and> x \<le> 1 \<and> 0 \<le> y \<and> y \<le> 1)"

section \<open>Example inputs of Refine\<close>

text \<open>
  The rounding used in the examples: the nearest multiple of \<open>10\<^sup>-\<^sup>6\<close>, the even one
  for a number exactly halfway. None of the sums in the examples is halfway between two
  multiples, so \<^verbatim>\<open>round(total_movement, 6)\<close> returns the same value there.
\<close>

definition round_half_even :: "real \<Rightarrow> int" where
  "round_half_even r =
     (let f = \<lfloor>r\<rfloor>; d = r - of_int f
      in if d < 1 / 2 then f else if 1 / 2 < d then f + 1 else if even f then f else f + 1)"

definition round6_half_even :: "real \<Rightarrow> real" where
  "round6_half_even r = of_int (round_half_even (r * 1000000)) / 1000000"

text \<open>
  The scenario of the specification: one anchor at \<open>(0.10, 0.10)\<close>, which the model moves
  to \<open>(0.12, 0.10)\<close> while reporting \<^verbatim>\<open>corrected: false\<close>.
\<close>

definition scenario_anchors :: json where
  "scenario_anchors = JArr [JObj [(''id'', JStr ''a''), (''x'', JNum 0.10), (''y'', JNum 0.10)]]"

definition scenario_response :: json where
  "scenario_response =
     JObj [(''anchors'', JArr [JObj [(''id'', JStr ''a''), (''x'', JNum 0.12),
                                     (''y'', JNum 0.10), (''corrected'', JBool False)]])]"

text \<open>
  Two anchors, of which the model returns only the first, moved below the image and
  without its \<^verbatim>\<open>x\<close>.
\<close>

definition two_anchors :: json where
  "two_anchors =
     JArr [JObj [(''id'', JStr ''head''), (''x'', JNum 0.25), (''y'', JNum 0.5)],
           JObj [(''id'', JStr ''tail''), (''x'', JNum 0.75), (''y'', JNum 0.5)]]"

definition one_correction :: json where
  "one_correction =
     JObj [(''anchors'', JArr [JObj [(''id'', JStr ''head''), (''y'', JNum 1.5)]])]"

text \<open>
  An original anchor to the right of the image that the model does not return, and a
  correction that gives neither \<^verbatim>\<open>x\<close> nor \<^verbatim>\<open>y\<close>.
\<close>

definition outside_anchor :: json where
  "outside_anchor = JArr [JObj [(''id'', JStr ''a''), (''x'', JNum 1.5), (''y'', JNum 0.5)]]"

definition other_correction :: json where
  "other_correction =
     JObj [(''anchors'', JArr [JObj [(''id'', JStr ''b''), (''x'', JNum 0.5), (''y'', JNum 0.5)]])]"

definition corner_anchor :: json where
  "corner_anchor = JArr [JObj [(''id'', JStr ''a''), (''x'', JNum 0.2), (''y'', JNum 0.3)]]"

definition bare_correction :: json where
  "bare_correction = JObj [(''anchors'', JArr [JObj [(''id'', JStr ''a'')]])]"

text \<open>The scenario's correction with the model's flag set.\<close>

definition flagged_response :: json where
  "flagged_response =
     JObj [(''anchors'', JArr [JObj [(''id'', JStr ''a''), (''x'', JNum 0.12),
                                     (''y'', JNum 0.10), (''corrected'', JBool True)]])]"

text \<open>
  A correction that moves the first of the two anchors by 0.3765433, which has more
  than 6 decimal digits.
\<close>

definition fine_correction :: json where
  "fine_correction =
     JObj [(''anchors'', JArr [JObj [(''id'', JStr ''head''), (''y'', JNum 0.1234567)]])]"

text \<open>Two original anchors with the same id at different places.\<close>

definition twin_anchors :: json where
  "twin_anchors =
     JArr [JObj [(''id'', JStr ''a''), (''x'', JNum 0.2), (''y'', JNum 0.2)],
           JObj [(''id'', JStr ''a''), (''x'', JNum 0.4), (''y'', JNum 0.2)]]"


section \<open>Lemmas about the model\<close>

lemma bindE_Inr_iff: "bindE m f = Inr y \<longleftrightarrow> (\<exists>x. m = Inr x \<and> f x = Inr y)"
  by (cases m) (simp_all add: bindE_def)

lemma bindE_Inr [simp]: "bindE (Inr x) f = f x"
  by (simp add: bindE_def)

lemma bindE_Inl [simp]: "bindE (Inl e) f = Inl e"
  by (simp add: bindE_def)

lemma bindE_InrE:
  assumes "bindE m f = Inr y"
  obtains x where "m = Inr x" and "f x = Inr y"
  using assms by (auto simp: bindE_Inr_iff)

lemma mapE_list_all2: "mapE f xs = Inr ys \<Longrightarrow> list_all2 (\<lambda>x y. f x = Inr y) xs ys"
proof (induction xs arbitrary: ys)
  case Nil
  then show ?case by simp
next
  case (Cons x xs)
  from Cons.prems obtain y ys' where "f x = Inr y" "mapE f xs = Inr ys'" "ys = y # ys'"
    by (auto simp: bindE_Inr_iff)
  with Cons.IH show ?case by simp
qed

lemma py_get_Inr: "py_get d k dflt = Inr v \<Longrightarrow> \<exists>kvs. d = JObj kvs \<and> v = (case map_of kvs k of Some w \<Rightarrow> w | None \<Rightarrow> dflt)"
  by (cases d) (auto split: option.splits)

lemma py_set_Inr: "py_set d k x = Inr d' \<Longrightarrow> \<exists>kvs. d = JObj kvs \<and> d' = JObj (AList.update k x kvs)"
  by (cases d) auto

lemma py_item_Inr: "py_item d k = Inr v \<Longrightarrow> \<exists>kvs. d = JObj kvs \<and> map_of kvs k = Some v"
  by (cases d) (auto split: option.splits)

lemma py_items_Inr: "py_items d = Inr kvs \<Longrightarrow> d = JObj kvs"
  by (cases d) auto

lemma fld_update_same [simp]: "fld (JObj (AList.update k v kvs)) k = v"
  by (simp add: update_conv')

lemma fld_update_other [simp]: "k' \<noteq> k \<Longrightarrow> fld (JObj (AList.update k v kvs)) k' = fld (JObj kvs) k'"
  by (simp add: update_conv')

lemma clamp_translate_range: "- 0.1 \<le> clamp_translate r \<and> clamp_translate r \<le> 0.1"
  by (simp add: clamp_translate_def)

lemma sanitize_transform_range:
  assumes "sanitize_transform pf t = Inr t'"
  shows "translate_in_range t'"
  using assms unfolding sanitize_transform_def
  by (auto elim!: bindE_InrE dest!: py_set_Inr py_get_Inr simp: translate_in_range_def clamp_translate_def update_conv')

lemma py_mutated_cases:
  "(\<exists>kvs old. d = JObj kvs \<and> map_of kvs k = Some old \<and> py_mutated d k v = JObj (AList.update k v kvs))
   \<or> (py_mutated d k v = d \<and> fld d k = JNull)"
  by (cases d) (auto split: option.splits)

lemma fld_py_mutated: "fld (py_mutated d k v) k = v \<or> fld (py_mutated d k v) k = JNull"
  using py_mutated_cases[of d k v] by (auto simp: update_conv')

lemma elems_py_rebuild: "elems (py_rebuild kv ys) = ys \<or> elems (py_rebuild kv ys) = []"
  by (cases kv) auto

lemma mapE_list_all:
  assumes "mapE f xs = Inr ys" and "\<And>x y. f x = Inr y \<Longrightarrow> P y"
  shows "list_all P ys"
  using mapE_list_all2[OF assms(1)] assms(2)
  by (induction xs ys rule: list_all2_induct) auto

lemma sanitize_item_range:
  "sanitize_item pf kt = Inr kt' \<Longrightarrow> translate_in_range (snd kt')"
  unfolding sanitize_item_def
  by (auto elim!: bindE_InrE dest: sanitize_transform_range)

lemma detect_keyframe_range:
  assumes "detect_keyframe pf kf = Inr kf'"
  shows "list_all translate_in_range (keyframe_transforms kf')"
proof -
  from assms obtain av items items' where
    items: "mapE (sanitize_item pf) items = Inr items'"
    and kf': "kf' = py_mutated kf ''anchors'' (JObj items')"
    unfolding detect_keyframe_def by (auto elim!: bindE_InrE)
  have "list_all (\<lambda>kt. translate_in_range (snd kt)) items'"
    using items sanitize_item_range by (rule mapE_list_all)
  then have "list_all translate_in_range (map snd items')"
    by (simp add: list_all_iff)
  moreover have "fld kf' ''anchors'' = JObj items' \<or> fld kf' ''anchors'' = JNull"
    unfolding kf' by (rule fld_py_mutated)
  ultimately show ?thesis
    by (auto simp: keyframe_transforms_def)
qed


lemma loop_result_elems: "set (elems (fld (py_mutated d k (py_rebuild kv ys)) k)) \<subseteq> set ys"
  using fld_py_mutated[of d k "py_rebuild kv ys"] elems_py_rebuild[of kv ys] by auto

lemma list_all_subset: "set xs \<subseteq> set ys \<Longrightarrow> list_all P ys \<Longrightarrow> list_all P xs"
  by (auto simp: list_all_iff)

lemma result_transforms_range:
  "list_all animation_in_range (result_animations res) \<Longrightarrow>
   list_all translate_in_range (result_transforms res)"
  by (auto simp: result_transforms_def animation_in_range_def keyframe_in_range_def list_all_iff)

lemma detect_animation_range:
  assumes "detect_animation pf anim = Inr anim'"
  shows "animation_in_range anim'"
proof -
  from assms obtain kv kfs kfs' where
    kfs: "mapE (detect_keyframe pf) kfs = Inr kfs'"
    and anim': "anim' = py_mutated anim ''keyframes'' (py_rebuild kv kfs')"
    unfolding detect_animation_def by (auto elim!: bindE_InrE)
  have "list_all keyframe_in_range kfs'"
    using kfs detect_keyframe_range unfolding keyframe_in_range_def by (rule mapE_list_all)
  then show ?thesis
    unfolding animation_in_range_def animation_keyframes_def anim'
    by (rule list_all_subset[OF loop_result_elems])
qed

lemma detect_animations_range:
  assumes "detect_animations pf data = Inr av"
  shows "list_all animation_in_range (elems av)"
proof -
  from assms obtain mv anims anims' where
    anims: "mapE (detect_animation pf) anims = Inr anims'"
    and av: "av = py_rebuild mv anims'"
    unfolding detect_animations_def by (auto elim!: bindE_InrE)
  have "list_all animation_in_range anims'"
    using anims detect_animation_range by (rule mapE_list_all)
  then show ?thesis
    unfolding av using elems_py_rebuild[of mv anims'] by auto
qed


lemma analyze_image_Inr:
  assumes "analyze_image pf lw data = Inr res"
  shows "\<exists>anchors valid_bones animations image_type description.
    absent_or_empty ''anchors'' data = Inr False \<and>
    absent_or_empty ''bones'' data = Inr False \<and>
    absent_or_empty ''animations'' data = Inr False \<and>
    detect_anchors pf lw data = Inr anchors \<and>
    detect_bones anchors data = Inr valid_bones \<and>
    valid_bones \<noteq> [] \<and>
    detect_animations pf data = Inr animations \<and>
    res = JObj [(''status'', JStr ''success''), (''image_type'', image_type),
                (''description'', description), (''anchors'', anchors),
                (''bones'', JArr valid_bones), (''animations'', animations)]"
  using assms unfolding analyze_image_def
  by (auto simp: bindE_Inr_iff split: if_splits)

lemma analyze_image_translate_range:
  assumes "analyze_image pf lw data = Inr res"
  shows "list_all translate_in_range (result_transforms res)"
proof -
  from assms obtain animations where
    "detect_animations pf data = Inr animations" and "fld res ''animations'' = animations"
    using analyze_image_Inr[OF assms] by auto
  then show ?thesis
    using detect_animations_range[of pf data animations]
    by (intro result_transforms_range) (simp add: result_animations_def)
qed

lemma foldE_invariant:
  assumes "foldE f s xs = Inr s'" and "I s"
    and step: "\<And>s x s'. I s \<Longrightarrow> x \<in> set xs \<Longrightarrow> f s x = Inr s' \<Longrightarrow> I s'"
  shows "I s'"
  using assms
proof (induction xs arbitrary: s)
  case Nil
  then show ?case by simp
next
  case (Cons x xs)
  from Cons.prems(1) obtain s1 where s1: "f s x = Inr s1" "foldE f s1 xs = Inr s'"
    by (auto elim!: bindE_InrE)
  have "I s1"
    by (rule Cons.prems(3)[OF Cons.prems(2) _ s1(1)]) simp
  show ?case
  proof (rule Cons.IH[OF s1(2) \<open>I s1\<close>])
    fix t y t'
    assume "I t" "y \<in> set xs" "f t y = Inr t'"
    then show "I t'"
      using Cons.prems(3)[of t y t'] by simp
  qed
qed

lemma set_update_subset: "set (AList.update k v al) \<subseteq> insert (k, v) (set al)"
  by (induction al) auto

lemma regen_keyframe_range:
  assumes "regen_keyframe pf ids kf = Inr kf'"
  shows "keyframe_in_range kf'"
proof -
  from assms obtain items valid where
    fold: "foldE (regen_item pf ids) [] items = Inr valid"
    and kf': "py_set kf ''anchors'' (JObj valid) = Inr kf'"
    unfolding regen_keyframe_def by (auto elim!: bindE_InrE)
  have "list_all (\<lambda>kt. translate_in_range (snd kt)) valid"
  proof (rule foldE_invariant[OF fold])
    show "list_all (\<lambda>kt. translate_in_range (snd kt)) []" by simp
  next
    fix s x s'
    assume inv: "list_all (\<lambda>kt. translate_in_range (snd kt)) s"
      and step: "regen_item pf ids s x = Inr s'"
    show "list_all (\<lambda>kt. translate_in_range (snd kt)) s'"
    proof (cases "JStr (fst x) \<in> ids")
      case False
      with step inv show ?thesis by (simp add: regen_item_def)
    next
      case True
      with step obtain t' where t': "sanitize_transform pf (snd x) = Inr t'"
        and s': "s' = AList.update (fst x) t' s"
        by (auto simp: regen_item_def elim!: bindE_InrE)
      from sanitize_transform_range[OF t'] inv set_update_subset[of "fst x" t' s]
      show ?thesis unfolding s' by (auto simp: list_all_iff)
    qed
  qed
  then have "list_all translate_in_range (map snd valid)"
    by (simp add: list_all_iff)
  moreover from kf' have "fld kf' ''anchors'' = JObj valid"
    by (auto dest!: py_set_Inr simp: update_conv')
  ultimately show ?thesis
    by (simp add: keyframe_in_range_def keyframe_transforms_def)
qed

lemma regen_animation_range:
  assumes "regen_animation pf ids anim = Inr anim'"
  shows "animation_in_range anim'"
proof -
  from assms obtain kv kfs kfs' where
    kfs: "mapE (regen_keyframe pf ids) kfs = Inr kfs'"
    and anim': "anim' = py_mutated anim ''keyframes'' (py_rebuild kv kfs')"
    unfolding regen_animation_def by (auto elim!: bindE_InrE)
  have "list_all keyframe_in_range kfs'"
    using kfs regen_keyframe_range by (rule mapE_list_all)
  then show ?thesis
    unfolding animation_in_range_def animation_keyframes_def anim'
    by (rule list_all_subset[OF loop_result_elems])
qed

lemma update_animations_Inr:
  assumes "update_animations pf anchors data = Inr res"
  shows "\<exists>ids mv anims anims'.
    truthy anchors \<and>
    absent_or_empty ''animations'' data = Inr False \<and>
    anchor_id_set anchors = Inr ids \<and>
    py_item data ''animations'' = Inr mv \<and>
    py_iter mv = Inr anims \<and>
    mapE (regen_animation pf ids) anims = Inr anims' \<and>
    res = JObj [(''status'', JStr ''success''), (''animations'', py_rebuild mv anims')]"
  using assms unfolding update_animations_def
  by (auto simp: bindE_Inr_iff split: if_splits)

lemma update_animations_translate_range:
  assumes "update_animations pf anchors data = Inr res"
  shows "list_all translate_in_range (result_transforms res)"
proof -
  from assms obtain ids mv anims anims' where
    anims: "mapE (regen_animation pf ids) anims = Inr anims'"
    and res: "fld res ''animations'' = py_rebuild mv anims'"
    using update_animations_Inr[OF assms] by auto
  have "list_all animation_in_range anims'"
    using anims regen_animation_range by (rule mapE_list_all)
  then have "list_all animation_in_range (result_animations res)"
    unfolding result_animations_def res using elems_py_rebuild[of mv anims'] by auto
  then show ?thesis by (rule result_transforms_range)
qed


lemma py_item_fld: "py_item d k = Inr v \<Longrightarrow> fld d k = v"
  by (auto dest!: py_item_Inr)

lemma py_num_float: "py_num v = Inr r \<Longrightarrow> py_float pf v = Inr r"
  by (cases v) auto

lemma py_get_get_or: "py_get d k dflt = Inr v \<Longrightarrow> v = get_or d k dflt"
  by (auto dest!: py_get_Inr simp: get_or_def)

lemma py_get_fld_truthy:
  "py_get d k (JBool False) = Inr v \<Longrightarrow> truthy v = truthy (fld d k)"
  by (auto dest!: py_get_Inr split: option.splits)

lemma merge_kept_step:
  assumes "merge_kept st orig aid = Inr st'" and "fld orig ''id'' = aid"
  shows "st' = st \<lparr> result_anchors := result_anchors st @ [kept_entry orig] \<rparr>"
  using assms unfolding merge_kept_def kept_entry_def
  by (auto simp: bindE_Inr_iff dest!: py_item_fld)

lemma merge_corrected_step:
  assumes "merge_corrected pf st orig aid corr = Inr st'" and "fld orig ''id'' = aid"
  shows "st' = \<lparr> total_movement = total_movement st + spec_displacement pf orig corr,
                 corrected_count = corrected_count st + (if spec_marked pf orig corr then 1 else 0),
                 result_anchors = result_anchors st @ [corrected_entry pf orig corr] \<rparr>"
proof -
  from assms(1) obtain ox vx fx oy vy fy oxr oyr flag out_flag where
    ox: "py_item orig ''x'' = Inr ox" and vx: "py_get corr ''x'' ox = Inr vx"
    and fx: "py_float pf vx = Inr fx"
    and oy: "py_item orig ''y'' = Inr oy" and vy: "py_get corr ''y'' oy = Inr vy"
    and fy: "py_float pf vy = Inr fy"
    and oxr: "py_num ox = Inr oxr" and oyr: "py_num oy = Inr oyr"
    and flag: "py_get corr ''corrected'' (JBool False) = Inr flag"
    and out_flag: "py_get corr ''corrected''
        (JBool (0.005 < euclid (clamp01 fx) (clamp01 fy) oxr oyr)) = Inr out_flag"
    and st': "st' = \<lparr> total_movement = total_movement st + euclid (clamp01 fx) (clamp01 fy) oxr oyr,
           corrected_count =
             (if truthy flag \<or> 0.005 < euclid (clamp01 fx) (clamp01 fy) oxr oyr
              then corrected_count st + 1 else corrected_count st),
           result_anchors = result_anchors st @
             [JObj [(''id'', aid), (''x'', JNum (clamp01 fx)), (''y'', JNum (clamp01 fy)),
                    (''corrected'', out_flag)]] \<rparr>"
    unfolding merge_corrected_def Let_def by (auto simp: bindE_Inr_iff)
  have x: "spec_corrected_x pf orig corr = clamp01 fx"
    using py_item_fld[OF ox] py_get_get_or[OF vx] fx by (simp add: spec_corrected_x_def real_of_def)
  have y: "spec_corrected_y pf orig corr = clamp01 fy"
    using py_item_fld[OF oy] py_get_get_or[OF vy] fy by (simp add: spec_corrected_y_def real_of_def)
  have rx: "real_of pf (fld orig ''x'') = oxr"
    using py_item_fld[OF ox] py_num_float[OF oxr] by (simp add: real_of_def)
  have ry: "real_of pf (fld orig ''y'') = oyr"
    using py_item_fld[OF oy] py_num_float[OF oyr] by (simp add: real_of_def)
  have d: "spec_displacement pf orig corr = euclid (clamp01 fx) (clamp01 fy) oxr oyr"
    by (simp add: spec_displacement_def euclid_def x y rx ry)
  have m: "spec_marked pf orig corr
      = (truthy flag \<or> 0.005 < euclid (clamp01 fx) (clamp01 fy) oxr oyr)"
    using py_get_fld_truthy[OF flag] by (simp add: spec_marked_def d)
  have e: "corrected_entry pf orig corr =
      JObj [(''id'', aid), (''x'', JNum (clamp01 fx)), (''y'', JNum (clamp01 fy)),
            (''corrected'', out_flag)]"
    using py_get_get_or[OF out_flag] assms(2) by (simp add: corrected_entry_def x y d)
  show ?thesis unfolding st' d m e by simp
qed


lemma add_correction_truthy:
  assumes "add_correction m a = Inr m'" and "list_all (\<lambda>kc. truthy (snd kc)) m"
  shows "list_all (\<lambda>kc. truthy (snd kc)) m'"
proof -
  from assms(1) obtain i k where i: "py_item a ''id'' = Inr i"
    and m': "m' = AList.update k a m"
    unfolding add_correction_def by (auto simp: bindE_Inr_iff)
  from i have "truthy a" by (auto dest!: py_item_Inr)
  with assms(2) set_update_subset[of k a m] show ?thesis
    unfolding m' by (auto simp: list_all_iff)
qed

lemma corrected_map_truthy:
  assumes "corrected_map_of v = Inr cm"
  shows "list_all (\<lambda>kc. truthy (snd kc)) cm"
proof -
  from assms obtain cs where fold: "foldE add_correction [] cs = Inr cm"
    unfolding corrected_map_of_def by (auto simp: bindE_Inr_iff)
  show ?thesis
    by (rule foldE_invariant[OF fold, where I = "list_all (\<lambda>kc. truthy (snd kc))"])
       (simp_all add: add_correction_truthy)
qed

lemma merge_anchor_step:
  assumes step: "merge_anchor pf cm st orig = Inr st'"
    and inv: "list_all (\<lambda>kc. truthy (snd kc)) cm"
  shows "st' = \<lparr> total_movement = total_movement st + spec_movement pf cm orig,
                 corrected_count = corrected_count st + (if spec_counted pf cm orig then 1 else 0),
                 result_anchors = result_anchors st @ [merged_entry pf cm orig] \<rparr>"
proof -
  from step obtain aid k where aid: "py_item orig ''id'' = Inr aid"
    and k: "py_hash aid = Inr k"
    and branch: "(if truthy (case map_of cm k of Some c \<Rightarrow> c | None \<Rightarrow> JNull)
                  then merge_corrected pf st orig aid (case map_of cm k of Some c \<Rightarrow> c | None \<Rightarrow> JNull)
                  else merge_kept st orig aid) = Inr st'"
    unfolding merge_anchor_def map_get_def by (auto simp: bindE_Inr_iff)
  have id: "fld orig ''id'' = aid" by (rule py_item_fld[OF aid])
  have corr: "correction_of cm orig = map_of cm k"
    by (simp add: correction_of_def id k)
  show ?thesis
  proof (cases "map_of cm k")
    case None
    with branch have "merge_kept st orig aid = Inr st'" by simp
    from merge_kept_step[OF this id] show ?thesis
      by (simp add: spec_movement_def spec_counted_def merged_entry_def corr None)
  next
    case (Some c)
    then have "(k, c) \<in> set cm" by (rule map_of_SomeD)
    with inv have "truthy c" by (auto simp: list_all_iff)
    with branch Some have "merge_corrected pf st orig aid c = Inr st'" by simp
    from merge_corrected_step[OF this id] show ?thesis
      by (simp add: spec_movement_def spec_counted_def merged_entry_def corr Some)
  qed
qed

lemma merge_loop:
  assumes "foldE (merge_anchor pf cm) st origs = Inr st'"
    and inv: "list_all (\<lambda>kc. truthy (snd kc)) cm"
  shows "st' = \<lparr> total_movement = total_movement st + sum_list (map (spec_movement pf cm) origs),
                 corrected_count = corrected_count st + length (filter (spec_counted pf cm) origs),
                 result_anchors = result_anchors st @ map (merged_entry pf cm) origs \<rparr>"
  using assms(1)
proof (induction origs arbitrary: st)
  case Nil
  then show ?case by simp
next
  case (Cons orig origs)
  from Cons.prems obtain s1 where s1: "merge_anchor pf cm st orig = Inr s1"
    and rest: "foldE (merge_anchor pf cm) s1 origs = Inr st'"
    by (auto simp: bindE_Inr_iff)
  show ?case
    unfolding Cons.IH[OF rest] merge_anchor_step[OF s1 inv] by simp
qed

lemma merge_anchor_JStr: "merge_anchor pf cm st (JStr s) = Inl Raised"
  by (simp add: merge_anchor_def)

lemma merge_foldE_JStr:
  assumes "foldE (merge_anchor pf cm) st (map f xs) = Inr st'" and "\<And>x. \<exists>s. f x = JStr s"
  shows "xs = []"
proof (cases xs)
  case Nil
  then show ?thesis .
next
  case (Cons a list)
  from assms(2) obtain s where "f a = JStr s" by blast
  with assms(1) Cons show ?thesis by (simp add: merge_anchor_JStr)
qed

lemma merge_anchors_Inr:
  assumes "merge_anchors pf rnd anchors cv = Inr res" and "truthy anchors"
  shows "\<exists>cm origs. anchors = JArr origs \<and> corrected_map_of cv = Inr cm \<and>
           res = JObj [(''status'', JStr ''success''),
                       (''anchors'', JArr (map (merged_entry pf cm) origs)),
                       (''corrected_count'',
                          JNum (real (length (filter (spec_counted pf cm) origs)))),
                       (''total_movement'',
                          JNum (rnd (sum_list (map (spec_movement pf cm) origs))))]"
proof -
  from assms(1) obtain cm origs st where cm: "corrected_map_of cv = Inr cm"
    and origs: "py_iter anchors = Inr origs"
    and fold: "foldE (merge_anchor pf cm)
        \<lparr> total_movement = 0, corrected_count = 0, result_anchors = [] \<rparr> origs = Inr st"
    and res: "res = JObj [(''status'', JStr ''success''),
                (''anchors'', JArr (result_anchors st)),
                (''corrected_count'', JNum (real (corrected_count st))),
                (''total_movement'', JNum (rnd (total_movement st)))]"
    unfolding merge_anchors_def by (auto simp: bindE_Inr_iff)
  have "anchors = JArr origs"
  proof (cases anchors)
    case (JArr xs)
    with origs show ?thesis by simp
  next
    case (JObj kvs)
    with origs fold have "kvs = []" by (auto dest!: merge_foldE_JStr)
    with JObj assms(2) show ?thesis by simp
  next
    case (JStr s)
    with origs fold have "s = []" by (auto dest!: merge_foldE_JStr)
    with JStr assms(2) show ?thesis by simp
  qed (use origs in simp_all)
  moreover note cm
  moreover have "res = JObj [(''status'', JStr ''success''),
                       (''anchors'', JArr (map (merged_entry pf cm) origs)),
                       (''corrected_count'',
                          JNum (real (length (filter (spec_counted pf cm) origs)))),
                       (''total_movement'',
                          JNum (rnd (sum_list (map (spec_movement pf cm) origs))))]"
    unfolding res merge_loop[OF fold corrected_map_truthy[OF cm]] by simp
  ultimately show ?thesis by blast
qed

lemma absent_or_empty_False:
  "absent_or_empty k data = Inr False \<Longrightarrow> \<exists>v. py_item data k = Inr v \<and> truthy v"
  unfolding absent_or_empty_def by (auto simp: bindE_Inr_iff split: if_splits)

lemma refine_anchors_Inr:
  assumes "refine_anchors pf rnd anchors data = Inr res"
  shows "\<exists>cm origs. anchors = JArr origs \<and> origs \<noteq> [] \<and>
           corrected_map_of (fld data ''anchors'') = Inr cm \<and>
           res = JObj [(''status'', JStr ''success''),
                       (''anchors'', JArr (map (merged_entry pf cm) origs)),
                       (''corrected_count'',
                          JNum (real (length (filter (spec_counted pf cm) origs)))),
                       (''total_movement'',
                          JNum (rnd (sum_list (map (spec_movement pf cm) origs))))]"
proof -
  from assms have t: "truthy anchors"
    unfolding refine_anchors_def by (auto split: if_splits)
  from assms t obtain cv where cv: "py_item data ''anchors'' = Inr cv"
    and m: "merge_anchors pf rnd anchors cv = Inr res"
    unfolding refine_anchors_def by (auto simp: bindE_Inr_iff split: if_splits)
  from merge_anchors_Inr[OF m t] py_item_fld[OF cv] t show ?thesis by auto
qed


lemma get_or_update_other:
  "k' \<noteq> k \<Longrightarrow> get_or (JObj (AList.update k v kvs)) k' d = get_or (JObj kvs) k' d"
  by (simp add: get_or_def update_conv')

lemma clamp_anchor_coords_Inr:
  assumes "clamp_anchor_coords pf a = Inr a2"
  shows "fld a2 ''x'' = JNum (clamp01 (real_of pf (get_or a ''x'' (JNum 0.5)))) \<and>
         fld a2 ''y'' = JNum (clamp01 (real_of pf (get_or a ''y'' (JNum 0.5))))"
proof -
  from assms obtain vx fx a1 vy fy where
    vx: "py_get a ''x'' (JNum 0.5) = Inr vx" and fx: "py_float pf vx = Inr fx"
    and a1: "py_set a ''x'' (JNum (clamp01 fx)) = Inr a1"
    and vy: "py_get a1 ''y'' (JNum 0.5) = Inr vy" and fy: "py_float pf vy = Inr fy"
    and a2: "py_set a1 ''y'' (JNum (clamp01 fy)) = Inr a2"
    unfolding clamp_anchor_coords_def by (elim bindE_InrE)
  from py_set_Inr[OF a1] obtain kvs where a: "a = JObj kvs"
    and a1': "a1 = JObj (AList.update ''x'' (JNum (clamp01 fx)) kvs)" by blast
  from py_set_Inr[OF a2] a1'
  have a2': "a2 = JObj (AList.update ''y'' (JNum (clamp01 fy))
                          (AList.update ''x'' (JNum (clamp01 fx)) kvs))" by simp
  have rx: "real_of pf (get_or a ''x'' (JNum 0.5)) = fx"
    using py_get_get_or[OF vx] fx by (simp add: real_of_def)
  have "vy = get_or a ''y'' (JNum 0.5)"
    using py_get_get_or[OF vy] unfolding a1' a by (simp add: get_or_update_other)
  then have ry: "real_of pf (get_or a ''y'' (JNum 0.5)) = fy"
    using fy by (simp add: real_of_def)
  show ?thesis unfolding rx ry a2' by (simp add: update_conv')
qed

lemma default_type_and_id_coords:
  assumes "default_type_and_id lw a2 = Inr a'"
  shows "fld a' ''x'' = fld a2 ''x'' \<and> fld a' ''y'' = fld a2 ''y''"
  using assms unfolding default_type_and_id_def
  by (cases a2) (auto simp: bindE_Inr_iff update_conv' split: if_splits dest!: py_set_Inr)

lemma sanitize_anchor_coords:
  assumes "sanitize_anchor pf lw a = Inr a'"
  shows "fld a' ''x'' = JNum (clamp01 (real_of pf (get_or a ''x'' (JNum 0.5)))) \<and>
         fld a' ''y'' = JNum (clamp01 (real_of pf (get_or a ''y'' (JNum 0.5))))"
proof -
  from assms obtain a2 where a2: "clamp_anchor_coords pf a = Inr a2"
    and a': "default_type_and_id lw a2 = Inr a'"
    unfolding sanitize_anchor_def by (auto simp: bindE_Inr_iff)
  from clamp_anchor_coords_Inr[OF a2] default_type_and_id_coords[OF a'] show ?thesis
    by simp
qed

lemma clamp01_range: "0 \<le> clamp01 r \<and> clamp01 r \<le> 1"
  by (simp add: clamp01_def)

lemma sanitize_anchor_unit:
  "sanitize_anchor pf lw a = Inr a' \<Longrightarrow> unit_coords a'"
  using clamp01_range by (auto dest!: sanitize_anchor_coords simp: unit_coords_def)

lemma sanitize_anchor_JStr: "sanitize_anchor pf lw (JStr s) = Inl Raised"
  by (simp add: sanitize_anchor_def clamp_anchor_coords_def)

text \<open>A loop over a value that mutates its elements: only a list has elements that can
  be processed, and the result pairs with the input element by element.\<close>

lemma mapE_JStr_Nil:
  assumes "mapE f (map g xs) = Inr ys" and "\<And>x. \<exists>s. g x = JStr s"
    and "\<And>s. f (JStr s) = Inl Raised"
  shows "xs = []"
proof (cases xs)
  case Nil
  then show ?thesis .
next
  case (Cons a list)
  from assms(2) obtain s where "g a = JStr s" by blast
  with assms(1,3) Cons show ?thesis by simp
qed

lemma loop_list_all2:
  assumes it: "py_iter v = Inr xs" and m: "mapE f xs = Inr ys"
    and str: "\<And>s. f (JStr s) = Inl Raised"
  shows "list_all2 (\<lambda>x y. f x = Inr y) (elems v) (elems (py_rebuild v ys))"
proof (cases v)
  case (JArr zs)
  with it m show ?thesis by (simp add: mapE_list_all2)
next
  case (JObj kvs)
  with it m have "mapE f (map (\<lambda>kv. JStr (fst kv)) kvs) = Inr ys" by simp
  then have "kvs = []" by (rule mapE_JStr_Nil) (auto simp: str)
  with JObj show ?thesis by simp
next
  case (JStr s)
  with it m have "mapE f (map (\<lambda>c. JStr [c]) s) = Inr ys" by simp
  then have "s = []" by (rule mapE_JStr_Nil) (auto simp: str)
  with JStr show ?thesis by simp
qed (use it in simp_all)

lemma detect_anchors_Inr:
  assumes "detect_anchors pf lw data = Inr anchors"
  shows "list_all2 (\<lambda>a a'. sanitize_anchor pf lw a = Inr a')
           (elems (fld data ''anchors'')) (elems anchors)"
proof -
  from assms obtain av as as' where av: "py_item data ''anchors'' = Inr av"
    and it: "py_iter av = Inr as" and m: "mapE (sanitize_anchor pf lw) as = Inr as'"
    and anchors: "anchors = py_rebuild av as'"
    unfolding detect_anchors_def by (auto simp: bindE_Inr_iff)
  from loop_list_all2[OF it m sanitize_anchor_JStr] py_item_fld[OF av] anchors
  show ?thesis by simp
qed

lemma analyze_image_anchors:
  assumes "analyze_image pf lw data = Inr res"
  shows "list_all2 (\<lambda>a a'. sanitize_anchor pf lw a = Inr a') (anchors_of data) (anchors_of res)"
proof -
  from analyze_image_Inr[OF assms] obtain anchors where
    "detect_anchors pf lw data = Inr anchors" and "fld res ''anchors'' = anchors"
    by auto
  with detect_anchors_Inr[of pf lw data anchors] show ?thesis
    by (simp add: anchors_of_def)
qed

lemma list_all2_rhs:
  "list_all2 R xs ys \<Longrightarrow> (\<And>x y. R x y \<Longrightarrow> P y) \<Longrightarrow> list_all P ys"
  by (induction rule: list_all2_induct) auto

lemma analyze_image_unit_coords:
  assumes "analyze_image pf lw data = Inr res"
  shows "list_all unit_coords (anchors_of res)"
  using analyze_image_anchors[OF assms] sanitize_anchor_unit by (rule list_all2_rhs)


lemma merged_entry_id: "fld (merged_entry pf cm orig) ''id'' = fld orig ''id''"
  by (simp add: merged_entry_def corrected_entry_def kept_entry_def split: option.splits)

lemma list_all2_map_same: "(\<And>x. x \<in> set xs \<Longrightarrow> P x (f x)) \<Longrightarrow> list_all2 P xs (map f xs)"
  by (simp add: list_all2_map2 list_all2_same)

lemma refine_anchors_result:
  assumes "refine_anchors pf rnd anchors data = Inr res"
  shows "\<exists>cm. corrected_map_of (fld data ''anchors'') = Inr cm \<and>
           anchors_of res = map (merged_entry pf cm) (elems anchors) \<and>
           fld res ''corrected_count'' =
             JNum (real (length (filter (spec_counted pf cm) (elems anchors)))) \<and>
           fld res ''total_movement'' =
             JNum (rnd (sum_list (map (spec_movement pf cm) (elems anchors))))"
  using refine_anchors_Inr[OF assms] by (auto simp: anchors_of_def)

lemma corrected_entry_unit: "unit_coords (corrected_entry pf orig corr)"
  using clamp01_range
  by (simp add: unit_coords_def corrected_entry_def spec_corrected_x_def spec_corrected_y_def)

lemma get_or_missing: "\<not> has_key d k \<Longrightarrow> get_or d k dflt = dflt"
  by (simp add: has_key_def get_or_def map_of_eq_None_iff[THEN iffD2])

lemma sanitize_anchor_default:
  assumes "sanitize_anchor pf lw a = Inr a'"
  shows "(\<not> has_key a ''x'' \<longrightarrow> fld a' ''x'' = JNum 0.5) \<and>
         (\<not> has_key a ''y'' \<longrightarrow> fld a' ''y'' = JNum 0.5)"
  using sanitize_anchor_coords[OF assms]
  by (auto simp: get_or_missing real_of_def clamp01_def)

lemma mapE_map:
  assumes "mapE f xs = Inr ys" and "\<And>x y. f x = Inr y \<Longrightarrow> y = g x"
  shows "ys = map g xs"
  using mapE_list_all2[OF assms(1)] assms(2)
  by (induction xs ys rule: list_all2_induct) auto

lemma anchor_id_set_Inr:
  assumes "anchor_id_set v = Inr ids"
  shows "ids = anchor_keys (elems v)"
proof -
  let ?f = "\<lambda>a. bindE (py_item a ''id'') py_hash"
  from assms obtain as ks where it: "py_iter v = Inr as" and ks: "mapE ?f as = Inr ks"
    and ids: "ids = set ks"
    unfolding anchor_id_set_def by (auto simp: bindE_Inr_iff)
  have str: "\<And>s. ?f (JStr s) = Inl Raised" by simp
  have as: "as = elems v"
  proof (cases v)
    case (JObj kvs)
    with it ks have "mapE ?f (map (\<lambda>kv. JStr (fst kv)) kvs) = Inr ks" by simp
    then have "kvs = []" by (rule mapE_JStr_Nil) (auto simp: str)
    with JObj it show ?thesis by simp
  next
    case (JStr s)
    with it ks have "mapE ?f (map (\<lambda>c. JStr [c]) s) = Inr ks" by simp
    then have "s = []" by (rule mapE_JStr_Nil) (auto simp: str)
    with JStr it show ?thesis by simp
  qed (use it in simp_all)
  have "list_all2 (\<lambda>a k. py_hash (fld a ''id'') = Inr k) as ks"
    using mapE_list_all2[OF ks]
    by (rule list_all2_mono) (auto simp: bindE_Inr_iff dest!: py_item_fld)
  then have "set ks = anchor_keys as"
    unfolding anchor_keys_def by (induction rule: list_all2_induct) auto
  with ids as show ?thesis by simp
qed

lemma absent_or_empty_JObj:
  "absent_or_empty k (JObj kvs) = Inr (\<not> truthy (fld (JObj kvs) k))"
proof (cases "map_of kvs k")
  case None
  then have "k \<notin> fst ` set kvs" by (simp add: map_of_eq_None_iff)
  with None show ?thesis by (simp add: absent_or_empty_def)
next
  case (Some v)
  then have "k \<in> fst ` set kvs" by (metis map_of_eq_None_iff option.distinct(1))
  with Some show ?thesis by (simp add: absent_or_empty_def)
qed

lemma analyze_image_status:
  "analyze_image pf lw data = Inr res \<Longrightarrow>
   \<exists>kvs. res = JObj kvs \<and> map_of kvs ''status'' = Some (JStr ''success'')"
  by (auto dest!: analyze_image_Inr)

lemma update_animations_status:
  "update_animations pf anchors data = Inr res \<Longrightarrow>
   \<exists>kvs. res = JObj kvs \<and> map_of kvs ''status'' = Some (JStr ''success'')"
  by (auto dest!: update_animations_Inr)

lemma refine_anchors_status:
  "refine_anchors pf rnd anchors data = Inr res \<Longrightarrow>
   \<exists>kvs. res = JObj kvs \<and> map_of kvs ''status'' = Some (JStr ''success'')"
  by (auto dest!: refine_anchors_Inr)

lemma main_exit_result:
  assumes "\<And>res. r = Inr res \<Longrightarrow>
     \<exists>kvs. res = JObj kvs \<and> map_of kvs ''status'' = Some (JStr ''success'')"
  shows "(main_exit (result_dict m r) \<noteq> 0) = (fld (result_dict m r) ''status'' = JStr ''error'') \<and>
         main_exit (result_dict m r) = (if isl r then 1 else 0)"
proof (cases r)
  case (Inl e)
  then show ?thesis by (cases e) (simp_all add: main_exit_def)
next
  case (Inr res)
  from assms[OF this] obtain kvs where "res = JObj kvs"
    and "map_of kvs ''status'' = Some (JStr ''success'')" by blast
  with Inr show ?thesis by (simp add: main_exit_def)
qed

lemma loop_mutated_list_all2:
  assumes get: "py_get d k (JArr []) = Inr v" and it: "py_iter v = Inr xs"
    and m: "mapE f xs = Inr ys" and str: "\<And>s. f (JStr s) = Inl Raised"
  shows "list_all2 (\<lambda>x y. f x = Inr y)
           (elems (fld d k)) (elems (fld (py_mutated d k (py_rebuild v ys)) k))"
proof -
  from py_get_Inr[OF get] obtain kvs where d: "d = JObj kvs"
    and v: "v = (case map_of kvs k of Some w \<Rightarrow> w | None \<Rightarrow> JArr [])" by blast
  show ?thesis
  proof (cases "map_of kvs k")
    case None
    with v it m have "ys = []" by auto
    with None d show ?thesis by simp
  next
    case (Some w)
    with v d have "fld d k = v" "fld (py_mutated d k (py_rebuild v ys)) k = py_rebuild v ys"
      by (simp_all add: update_conv')
    with loop_list_all2[OF it m str] show ?thesis by simp
  qed
qed

lemma sanitize_item_fst: "sanitize_item pf kt = Inr kt' \<Longrightarrow> fst kt' = fst kt"
  by (auto simp: sanitize_item_def bindE_Inr_iff)

lemma detect_keyframe_keys:
  assumes "detect_keyframe pf kf = Inr kf'"
  shows "kf_keys kf' = kf_keys kf"
proof -
  from assms obtain av items items' where
    av: "py_get kf ''anchors'' (JObj []) = Inr av" and items: "py_items av = Inr items"
    and m: "mapE (sanitize_item pf) items = Inr items'"
    and kf': "kf' = py_mutated kf ''anchors'' (JObj items')"
    unfolding detect_keyframe_def by (auto simp: bindE_Inr_iff)
  have fst: "map fst items' = map fst items"
    using mapE_list_all2[OF m]
    by (induction rule: list_all2_induct) (auto dest: sanitize_item_fst)
  from py_get_Inr[OF av] obtain kvs where kf: "kf = JObj kvs"
    and av': "av = (case map_of kvs ''anchors'' of Some w \<Rightarrow> w | None \<Rightarrow> JObj [])" by blast
  show ?thesis
  proof (cases "map_of kvs ''anchors''")
    case None
    with kf kf' show ?thesis by (simp add: kf_keys_def)
  next
    case (Some w)
    with av' py_items_Inr[OF items] have "w = JObj items" by simp
    with Some kf kf' have "fld kf ''anchors'' = JObj items" "fld kf' ''anchors'' = JObj items'"
      by (simp_all add: update_conv')
    then have "kf_keys kf' = set (map fst items')" "kf_keys kf = set (map fst items)"
      by (simp_all add: kf_keys_def)
    with fst show ?thesis by simp
  qed
qed

lemma regen_fold_keys:
  assumes "foldE (regen_item pf ids) valid items = Inr valid'"
  shows "fst ` set valid' = fst ` set valid \<union> {k \<in> fst ` set items. JStr k \<in> ids}"
  using assms
proof (induction items arbitrary: valid)
  case Nil
  then show ?case by simp
next
  case (Cons kt items)
  from Cons.prems obtain v1 where v1: "regen_item pf ids valid kt = Inr v1"
    and rest: "foldE (regen_item pf ids) v1 items = Inr valid'"
    by (auto simp: bindE_Inr_iff)
  have "fst ` set v1 = fst ` set valid \<union> (if JStr (fst kt) \<in> ids then {fst kt} else {})"
  proof (cases "JStr (fst kt) \<in> ids")
    case True
    with v1 obtain t' where "v1 = AList.update (fst kt) t' valid"
      by (auto simp: regen_item_def bindE_Inr_iff)
    with True show ?thesis by (simp add: dom_update)
  next
    case False
    with v1 show ?thesis by (simp add: regen_item_def)
  qed
  with Cons.IH[OF rest] show ?case by auto
qed

lemma regen_keyframe_keys:
  assumes "regen_keyframe pf ids kf = Inr kf'"
  shows "kf_keys kf' = {k \<in> kf_keys kf. JStr k \<in> ids}"
proof -
  from assms obtain av items valid where
    av: "py_get kf ''anchors'' (JObj []) = Inr av" and items: "py_items av = Inr items"
    and fold: "foldE (regen_item pf ids) [] items = Inr valid"
    and kf': "py_set kf ''anchors'' (JObj valid) = Inr kf'"
    unfolding regen_keyframe_def by (auto simp: bindE_Inr_iff)
  from py_set_Inr[OF kf'] have out: "kf_keys kf' = fst ` set valid"
    by (auto simp: kf_keys_def update_conv')
  from py_get_Inr[OF av] obtain kvs where kf: "kf = JObj kvs"
    and av': "av = (case map_of kvs ''anchors'' of Some w \<Rightarrow> w | None \<Rightarrow> JObj [])" by blast
  from av' py_items_Inr[OF items] kf have "kf_keys kf = fst ` set items"
    by (auto simp: kf_keys_def split: option.splits)
  with regen_fold_keys[OF fold] out show ?thesis by simp
qed

lemma detect_keyframe_JStr: "detect_keyframe pf (JStr s) = Inl Raised"
  by (simp add: detect_keyframe_def)

lemma regen_keyframe_JStr: "regen_keyframe pf ids (JStr s) = Inl Raised"
  by (simp add: regen_keyframe_def)

lemma detect_animation_JStr: "detect_animation pf (JStr s) = Inl Raised"
  by (simp add: detect_animation_def)

lemma regen_animation_JStr: "regen_animation pf ids (JStr s) = Inl Raised"
  by (simp add: regen_animation_def)

lemma detect_animation_keys:
  assumes "detect_animation pf anim = Inr anim'"
  shows "list_all2 (\<lambda>kf kf'. kf_keys kf' = kf_keys kf)
           (animation_keyframes anim) (animation_keyframes anim')"
proof -
  from assms obtain kv kfs kfs' where
    kv: "py_get anim ''keyframes'' (JArr []) = Inr kv" and it: "py_iter kv = Inr kfs"
    and m: "mapE (detect_keyframe pf) kfs = Inr kfs'"
    and anim': "anim' = py_mutated anim ''keyframes'' (py_rebuild kv kfs')"
    unfolding detect_animation_def by (auto simp: bindE_Inr_iff)
  from loop_mutated_list_all2[OF kv it m detect_keyframe_JStr]
  show ?thesis unfolding animation_keyframes_def anim'
    by (rule list_all2_mono) (rule detect_keyframe_keys)
qed

lemma regen_animation_keys:
  assumes "regen_animation pf ids anim = Inr anim'"
  shows "list_all2 (\<lambda>kf kf'. kf_keys kf' = {k \<in> kf_keys kf. JStr k \<in> ids})
           (animation_keyframes anim) (animation_keyframes anim')"
proof -
  from assms obtain kv kfs kfs' where
    kv: "py_get anim ''keyframes'' (JArr []) = Inr kv" and it: "py_iter kv = Inr kfs"
    and m: "mapE (regen_keyframe pf ids) kfs = Inr kfs'"
    and anim': "anim' = py_mutated anim ''keyframes'' (py_rebuild kv kfs')"
    unfolding regen_animation_def by (auto simp: bindE_Inr_iff)
  from loop_mutated_list_all2[OF kv it m regen_keyframe_JStr]
  show ?thesis unfolding animation_keyframes_def anim'
    by (rule list_all2_mono) (rule regen_keyframe_keys)
qed

lemma list_all2_map_both:
  "list_all2 (\<lambda>x y. R (f x) (f y)) xs ys \<Longrightarrow> list_all2 R (map f xs) (map f ys)"
  by (simp add: list_all2_map1 list_all2_map2)

lemma analyze_image_keys:
  assumes "analyze_image pf lw data = Inr res"
  shows "list_all2 (list_all2 (\<lambda>kf kf'. kf_keys kf' = kf_keys kf))
           (keyframes_of data) (keyframes_of res)"
proof -
  from analyze_image_Inr[OF assms] obtain av where
    av: "detect_animations pf data = Inr av" and res: "fld res ''animations'' = av"
    by auto
  from av obtain mv anims anims' where
    mv: "py_get data ''animations'' (JArr []) = Inr mv" and it: "py_iter mv = Inr anims"
    and m: "mapE (detect_animation pf) anims = Inr anims'"
    and av': "av = py_rebuild mv anims'"
    unfolding detect_animations_def by (auto simp: bindE_Inr_iff)
  from analyze_image_Inr[OF assms] have "absent_or_empty ''animations'' data = Inr False"
    by auto
  from absent_or_empty_False[OF this] mv have "fld data ''animations'' = mv"
    by (auto dest!: py_item_Inr)
  with loop_list_all2[OF it m detect_animation_JStr] res av'
  have "list_all2 (\<lambda>a a'. detect_animation pf a = Inr a')
          (result_animations data) (result_animations res)"
    by (simp add: result_animations_def)
  then have "list_all2 (\<lambda>a a'. list_all2 (\<lambda>kf kf'. kf_keys kf' = kf_keys kf)
          (animation_keyframes a) (animation_keyframes a'))
          (result_animations data) (result_animations res)"
    by (rule list_all2_mono) (rule detect_animation_keys)
  then show ?thesis unfolding keyframes_of_def by (rule list_all2_map_both)
qed

lemma update_animations_keys:
  assumes "update_animations pf anchors data = Inr res"
  shows "list_all2 (list_all2 (\<lambda>kf kf'.
             kf_keys kf' = {k \<in> kf_keys kf. JStr k \<in> anchor_keys (elems anchors)}))
           (keyframes_of data) (keyframes_of res)"
proof -
  from update_animations_Inr[OF assms] obtain ids mv anims anims' where
    ids: "anchor_id_set anchors = Inr ids"
    and mv: "py_item data ''animations'' = Inr mv" and it: "py_iter mv = Inr anims"
    and m: "mapE (regen_animation pf ids) anims = Inr anims'"
    and res: "res = JObj [(''status'', JStr ''success''), (''animations'', py_rebuild mv anims')]"
    by blast
  have ids': "ids = anchor_keys (elems anchors)" by (rule anchor_id_set_Inr[OF ids])
  from loop_list_all2[OF it m regen_animation_JStr] py_item_fld[OF mv] res
  have "list_all2 (\<lambda>a a'. regen_animation pf ids a = Inr a')
          (result_animations data) (result_animations res)"
    by (simp add: result_animations_def)
  then have "list_all2 (\<lambda>a a'. list_all2 (\<lambda>kf kf'.
             kf_keys kf' = {k \<in> kf_keys kf. JStr k \<in> ids})
          (animation_keyframes a) (animation_keyframes a'))
          (result_animations data) (result_animations res)"
    by (rule list_all2_mono) (rule regen_animation_keys)
  then show ?thesis unfolding keyframes_of_def ids' by (rule list_all2_map_both)
qed


lemma find_append:
  "find P (xs @ ys) = (case find P xs of Some x \<Rightarrow> Some x | None \<Rightarrow> find P ys)"
  by (induction xs) auto

lemma sum_list_all_zero: "(\<And>x. x \<in> set xs \<Longrightarrow> f x = (0::real)) \<Longrightarrow> sum_list (map f xs) = 0"
  by (induction xs) auto

lemma add_correction_fold_lookup:
  assumes "foldE add_correction m xs = Inr m'"
  shows "map_of m' k =
           (case find (\<lambda>a. py_hash (fld a ''id'') = Inr k) (rev xs) of
              Some a \<Rightarrow> Some a
            | None \<Rightarrow> map_of m k)"
  using assms
proof (induction xs arbitrary: m)
  case Nil
  then show ?case by simp
next
  case (Cons x xs)
  from Cons.prems obtain m1 where m1: "add_correction m x = Inr m1"
    and rest: "foldE add_correction m1 xs = Inr m'"
    by (auto simp: bindE_Inr_iff)
  from m1 obtain k0 where k0: "py_hash (fld x ''id'') = Inr k0"
    and m1': "m1 = AList.update k0 x m"
    by (auto simp: add_correction_def bindE_Inr_iff dest!: py_item_fld)
  show ?case
    unfolding Cons.IH[OF rest] m1'
    by (auto simp: find_append update_conv' k0 split: option.splits)
qed

lemma add_correction_fold_hashable:
  assumes "foldE add_correction m xs = Inr m'" and "x \<in> set xs"
  shows "\<exists>k. py_hash (fld x ''id'') = Inr k"
  using assms
proof (induction xs arbitrary: m)
  case Nil
  then show ?case by simp
next
  case (Cons y ys)
  from Cons.prems(1) obtain m1 where m1: "add_correction m y = Inr m1"
    and rest: "foldE add_correction m1 ys = Inr m'"
    by (auto simp: bindE_Inr_iff)
  from m1 have "\<exists>k. py_hash (fld y ''id'') = Inr k"
    by (auto simp: add_correction_def bindE_Inr_iff dest!: py_item_fld)
  with Cons.IH[OF rest] Cons.prems(2) show ?case by auto
qed

lemma find_rev_distinct:
  assumes "distinct (map f xs)" and "x \<in> set xs"
  shows "find (\<lambda>a. f a = f x) (rev xs) = Some x"
  using assms
proof (induction xs)
  case Nil
  then show ?case by simp
next
  case (Cons y ys)
  show ?case
  proof (cases "x \<in> set ys")
    case True
    with Cons show ?thesis by (auto simp: find_append)
  next
    case False
    with Cons.prems have xy: "x = y" by simp
    from Cons.prems(1) have "f y \<notin> f ` set ys" by simp
    then have "\<forall>a \<in> set ys. f a \<noteq> f y" by (metis imageI)
    then have "find (\<lambda>a. f a = f y) (rev ys) = None"
      by (simp add: find_None_iff)
    with xy show ?thesis by (simp add: find_append)
  qed
qed

lemma self_correction:
  assumes cm: "corrected_map_of (JArr xs) = Inr cm"
    and uniq: "distinct (map (\<lambda>a. py_hash (fld a ''id'')) xs)"
    and x: "x \<in> set xs"
  shows "correction_of cm x = Some x"
proof -
  from cm have fold: "foldE add_correction [] xs = Inr cm"
    by (simp add: corrected_map_of_def)
  from add_correction_fold_hashable[OF fold x] obtain k where
    k: "py_hash (fld x ''id'') = Inr k" by blast
  from find_rev_distinct[OF uniq x] k
  have "find (\<lambda>a. py_hash (fld a ''id'') = Inr k) (rev xs) = Some x" by simp
  with add_correction_fold_lookup[OF fold, of k] k show ?thesis
    by (simp add: correction_of_def)
qed

lemma add_correction_JStr: "add_correction m (JStr s) = Inl Raised"
  by (simp add: add_correction_def)

lemma corrected_map_of_fold:
  assumes "corrected_map_of cv = Inr cm"
  shows "foldE add_correction [] (elems cv) = Inr cm"
proof -
  from assms obtain cs where it: "py_iter cv = Inr cs"
    and fold: "foldE add_correction [] cs = Inr cm"
    unfolding corrected_map_of_def by (auto simp: bindE_Inr_iff)
  have "cs = elems cv"
  proof (cases cv)
    case (JObj kvs)
    with it fold have "kvs = []"
      by (cases kvs) (auto simp: add_correction_JStr)
    with JObj it show ?thesis by simp
  next
    case (JStr s)
    with it fold have "s = []"
      by (cases s) (auto simp: add_correction_JStr)
    with JStr it show ?thesis by simp
  qed (use it in simp_all)
  with fold show ?thesis by simp
qed

lemma correction_of_last:
  assumes "corrected_map_of cv = Inr cm"
  shows "correction_of cm orig = last_correction (elems cv) orig"
  using add_correction_fold_lookup[OF corrected_map_of_fold[OF assms]]
  by (auto simp: correction_of_def last_correction_def split: sum.splits option.splits)

lemma refine_anchors_list:
  "refine_anchors pf rnd anchors data = Inr res \<Longrightarrow> fld res ''anchors'' = JArr (anchors_of res)"
  by (auto dest!: refine_anchors_Inr simp: anchors_of_def)

lemma round_half_even_near: "\<bar>of_int (round_half_even x) - x\<bar> \<le> 1 / 2"
proof -
  define f where "f = \<lfloor>x\<rfloor>"
  define d where "d = x - of_int f"
  have d: "0 \<le> d" "d < 1" unfolding d_def f_def by linarith+
  have x: "x = of_int f + d" unfolding d_def by simp
  have r: "round_half_even x = (if d < 1 / 2 then f else if 1 / 2 < d then f + 1 else if even f then f else f + 1)"
    unfolding round_half_even_def Let_def d_def f_def by simp
  have "\<bar>of_int (round_half_even x) - (of_int f + d)\<bar> \<le> 1 / 2"
    unfolding r using d by (auto simp: abs_if)
  then show ?thesis unfolding x [symmetric] .
qed

lemma round6_half_even_rounds: "rounds_to_6_digits round6_half_even"
  unfolding rounds_to_6_digits_def
proof (intro allI conjI)
  fix r :: real
  show "\<exists>n::int. round6_half_even r = of_int n / 1000000"
    unfolding round6_half_even_def by blast
  have "\<bar>of_int (round_half_even (r * 1000000)) - r * 1000000\<bar> \<le> 1 / 2"
    by (rule round_half_even_near)
  then show "\<bar>round6_half_even r - r\<bar> \<le> 1 / 2000000"
    unfolding round6_half_even_def by (simp add: abs_if field_simps split: if_splits)
qed

lemma rounds_zero:
  assumes "rounds_to_6_digits rnd"
  shows "rnd 0 = 0"
proof -
  from assms obtain n :: int where n: "rnd 0 = of_int n / 1000000"
    and near: "\<bar>rnd 0 - 0\<bar> \<le> 1 / 2000000"
    unfolding rounds_to_6_digits_def by blast
  from near have "\<bar>real_of_int n\<bar> \<le> 1 / 2" unfolding n by simp
  then have "n = 0" by linarith
  with n show ?thesis by simp
qed

lemma merged_entry_settled:
  assumes "py_hash (fld orig ''id'') = Inr k" and "unit_coords orig"
  shows "settled_entry (merged_entry pf cm orig)"
proof (cases "correction_of cm orig")
  case None
  from assms(2) obtain x y where "fld orig ''x'' = JNum x" "fld orig ''y'' = JNum y"
    "0 \<le> x" "x \<le> 1" "0 \<le> y" "y \<le> 1"
    by (auto simp: unit_coords_def split: json.splits)
  with None assms(1) show ?thesis
    by (simp add: merged_entry_def kept_entry_def settled_entry_def)
next
  case (Some corr)
  with assms(1) clamp01_range show ?thesis
    by (simp add: merged_entry_def corrected_entry_def settled_entry_def
        spec_corrected_x_def spec_corrected_y_def)
qed

lemma settled_entry_id:
  "settled_entry a \<Longrightarrow> \<exists>k. py_hash (fld a ''id'') = Inr k \<and> py_item a ''id'' = Inr (fld a ''id'')"
  by (auto simp: settled_entry_def)

lemma add_correction_fold_settled:
  assumes "\<And>a. a \<in> set xs \<Longrightarrow> settled_entry a"
  shows "\<exists>cm. foldE add_correction m xs = Inr cm"
  using assms
proof (induction xs arbitrary: m)
  case Nil
  then show ?case by simp
next
  case (Cons a xs)
  from Cons.prems[of a] obtain k where "py_hash (fld a ''id'') = Inr k"
    "py_item a ''id'' = Inr (fld a ''id'')"
    using settled_entry_id by auto
  then have "add_correction m a = Inr (AList.update k a m)"
    by (simp add: add_correction_def)
  moreover from Cons.IH[of "AList.update k a m"] Cons.prems
  obtain cm where "foldE add_correction (AList.update k a m) xs = Inr cm" by auto
  ultimately show ?case by simp
qed

lemma merge_anchor_self:
  assumes s: "settled_entry a" and c: "correction_of cm a = Some a"
  shows "merge_anchor pf cm st a =
           Inr \<lparr> total_movement = total_movement st,
                 corrected_count = corrected_count st + (if truthy (fld a ''corrected'') then 1 else 0),
                 result_anchors = result_anchors st @ [a] \<rparr>"
proof -
  from s obtain aid k x y flag where
    a: "a = JObj [(''id'', aid), (''x'', JNum x), (''y'', JNum y), (''corrected'', flag)]"
    and k: "py_hash aid = Inr k" and r: "0 \<le> x" "x \<le> 1" "0 \<le> y" "y \<le> 1"
    unfolding settled_entry_def by blast
  from c k have m: "map_of cm k = Some a"
    by (simp add: correction_of_def a)
  have cx: "clamp01 x = x" and cy: "clamp01 y = y"
    using r by (simp_all add: clamp01_def)
  have e: "euclid x y x y = 0" by (simp add: euclid_def)
  have g: "map_get cm aid = Inr a"
    by (simp add: map_get_def k m)
  have t: "truthy a" by (simp add: a)
  have step: "merge_corrected pf st a aid a =
           Inr \<lparr> total_movement = total_movement st + 0,
                 corrected_count = (if truthy flag \<or> (0.005::real) < 0
                    then corrected_count st + 1 else corrected_count st),
                 result_anchors = result_anchors st @ [a] \<rparr>"
    unfolding merge_corrected_def a by (simp add: cx cy e Let_def)
  have "merge_anchor pf cm st a = merge_corrected pf st a aid a"
    unfolding merge_anchor_def using g t by (simp add: a)
  with step show ?thesis by (simp add: a)
qed

lemma merge_loop_self:
  assumes "\<And>a. a \<in> set ys \<Longrightarrow> settled_entry a \<and> correction_of cm a = Some a"
  shows "foldE (merge_anchor pf cm) st ys =
           Inr \<lparr> total_movement = total_movement st,
                 corrected_count = corrected_count st +
                   length (filter (\<lambda>a. truthy (fld a ''corrected'')) ys),
                 result_anchors = result_anchors st @ ys \<rparr>"
  using assms
proof (induction ys arbitrary: st)
  case Nil
  then show ?case by simp
next
  case (Cons a ys)
  from Cons.prems[of a] have "settled_entry a" "correction_of cm a = Some a" by simp_all
  note step = merge_anchor_self[OF this, of pf st]
  have rest: "\<And>b. b \<in> set ys \<Longrightarrow> settled_entry b \<and> correction_of cm b = Some b"
    using Cons.prems by simp
  show ?case
    by (simp add: step Cons.IH[OF rest])
qed

lemma rerun_on_settled:
  assumes settled: "\<And>a. a \<in> set xs \<Longrightarrow> settled_entry a"
    and uniq: "distinct (map (\<lambda>a. py_hash (fld a ''id'')) xs)"
    and ne: "xs \<noteq> []"
  shows "refine_anchors pf rnd (JArr xs) (JObj [(''anchors'', JArr xs)]) =
           Inr (JObj [(''status'', JStr ''success''),
                      (''anchors'', JArr xs),
                      (''corrected_count'',
                         JNum (real (length (filter (\<lambda>a. truthy (fld a ''corrected'')) xs)))),
                      (''total_movement'', JNum (rnd 0))])"
proof -
  from add_correction_fold_settled[OF settled, of xs "[]"] obtain cm where
    fold: "foldE add_correction [] xs = Inr cm" by auto
  then have cm: "corrected_map_of (JArr xs) = Inr cm"
    by (simp add: corrected_map_of_def)
  have self: "\<And>a. a \<in> set xs \<Longrightarrow> settled_entry a \<and> correction_of cm a = Some a"
    using settled self_correction[OF cm uniq] by simp
  have loop: "foldE (merge_anchor pf cm)
        \<lparr> total_movement = 0, corrected_count = 0, result_anchors = [] \<rparr> xs =
      Inr \<lparr> total_movement = 0,
            corrected_count = length (filter (\<lambda>a. truthy (fld a ''corrected'')) xs),
            result_anchors = xs \<rparr>"
    using merge_loop_self[OF self, of xs pf
        "\<lparr> total_movement = 0, corrected_count = 0, result_anchors = [] \<rparr>"]
    by simp
  show ?thesis
    using ne by (simp add: refine_anchors_def absent_or_empty_def merge_anchors_def cm loop)
qed

lemma merge_fold_hashable:
  assumes "foldE (merge_anchor pf cm) st origs = Inr st'" and "orig \<in> set origs"
  shows "\<exists>k. py_hash (fld orig ''id'') = Inr k"
  using assms
proof (induction origs arbitrary: st)
  case Nil
  then show ?case by simp
next
  case (Cons a origs)
  from Cons.prems(1) obtain s1 where s1: "merge_anchor pf cm st a = Inr s1"
    and rest: "foldE (merge_anchor pf cm) s1 origs = Inr st'"
    by (auto simp: bindE_Inr_iff)
  from s1 have "\<exists>k. py_hash (fld a ''id'') = Inr k"
    by (auto simp: merge_anchor_def map_get_def bindE_Inr_iff dest!: py_item_fld)
  with Cons.IH[OF rest] Cons.prems(2) show ?case by auto
qed

lemma refine_anchors_hashable:
  assumes "refine_anchors pf rnd anchors data = Inr res" and "orig \<in> set (elems anchors)"
  shows "\<exists>k. py_hash (fld orig ''id'') = Inr k"
proof -
  from assms(1) obtain cv where m: "merge_anchors pf rnd anchors cv = Inr res"
    and t: "truthy anchors"
    unfolding refine_anchors_def by (auto simp: bindE_Inr_iff split: if_splits)
  from m obtain cm origs st where it: "py_iter anchors = Inr origs"
    and fold: "foldE (merge_anchor pf cm)
        \<lparr> total_movement = 0, corrected_count = 0, result_anchors = [] \<rparr> origs = Inr st"
    unfolding merge_anchors_def by (auto simp: bindE_Inr_iff)
  from merge_anchors_Inr[OF m t] it have "origs = elems anchors" by auto
  with merge_fold_hashable[OF fold] assms(2) show ?thesis by simp
qed


text \<open>The definitions that evaluate an operation on a concrete input.\<close>

lemmas detect_eval = analyze_image_def absent_or_empty_def detect_anchors_def sanitize_anchor_def
  clamp_anchor_coords_def default_type_and_id_def
  clamp01_def detect_bones_def anchor_id_set_def bone_valid_def detect_animations_def
  detect_animation_def detect_keyframe_def sanitize_item_def sanitize_transform_def
  unit_heuristic_def looks_like_pixels_def py_abs_def py_truediv_def clamp_translate_def
  detect_example_def example_animations_def example_keyframe_def no_float_def lower_id_def

lemmas regen_eval = update_animations_def absent_or_empty_def anchor_id_set_def
  regen_animation_def regen_keyframe_def regen_item_def sanitize_transform_def
  unit_heuristic_def looks_like_pixels_def py_abs_def py_truediv_def clamp_translate_def
  regen_example_def regen_anchors_def example_animations_def example_keyframe_def no_float_def

lemmas refine_eval = refine_anchors_def absent_or_empty_def merge_anchors_def
  corrected_map_of_def add_correction_def map_get_def merge_anchor_def merge_corrected_def
  merge_kept_def euclid_def clamp01_def round6_half_even_def round_half_even_def no_float_def
  Let_def

section \<open>The claims\<close>

text \<open>
  C2 (as amended). In the unit-detection heuristic the two components are converted
  together: when \<^verbatim>\<open>translateX\<close> and \<^verbatim>\<open>translateY\<close> are numbers \<open>a\<close> and \<open>b\<close>, both are
  divided by 500 if and only if at least one of \<open>\<bar>a\<bar>\<close>, \<open>\<bar>b\<bar>\<close> exceeds 1.0, and both
  are left as they are otherwise.
\<close>

theorem unit_heuristic_converts_both:
  assumes "py_num tx = Inr a" and "py_num ty = Inr b"
  shows "unit_heuristic tx ty =
           Inr (if 1 < \<bar>a\<bar> \<or> 1 < \<bar>b\<bar> then (JNum (a / 500), JNum (b / 500)) else (tx, ty))"
  using assms
  by (simp add: unit_heuristic_def looks_like_pixels_def py_abs_def py_truediv_def)

theorem unit_heuristic_converts_both_witness:
  "py_num (JNum 0.7) = Inr 0.7 \<and> py_num (JNum (- 3)) = Inr (- 3) \<and>
   unit_heuristic (JNum 0.7) (JNum (- 3)) = Inr (JNum (0.7 / 500), JNum (- 3 / 500)) \<and>
   unit_heuristic (JNum 0.7) (JNum 0.9) = Inr (JNum 0.7, JNum 0.9)"
proof -
  have a: "py_num (JNum 0.7) = Inr 0.7" and b: "py_num (JNum (- 3)) = Inr (- 3)"
    and c: "py_num (JNum 0.9) = Inr 0.9"
    by simp_all
  from unit_heuristic_converts_both[OF a b] unit_heuristic_converts_both[OF a c] a b
  show ?thesis by simp
qed

text \<open>
  C2 as stated fails: with \<^verbatim>\<open>tx = 120\<close> and \<^verbatim>\<open>ty = 0.05\<close> the heuristic also divides
  \<^verbatim>\<open>ty\<close>, whose absolute value is below 1.0, and returns 0.0001 for it, not 0.05.
\<close>

theorem unit_heuristic_small_component_counterexample:
  "unit_heuristic (JNum 120) (JNum 0.05) = Inr (JNum 0.24, JNum 0.0001) \<and>
   \<not> 1 < \<bar>0.05 :: real\<bar> \<and> JNum 0.0001 \<noteq> JNum 0.05"
  by (simp add: unit_heuristic_def looks_like_pixels_def py_abs_def py_truediv_def)

text \<open>
  C4. For every transform of every keyframe of every animation in a success result of
  Detect or of Regenerate, \<^verbatim>\<open>translateX\<close> and \<^verbatim>\<open>translateY\<close> are numbers of the closed
  interval \<open>[-0.1, 0.1]\<close>.
\<close>

theorem translations_clamped:
  "(analyze_image pf lw data = Inr res \<longrightarrow>
      list_all translate_in_range (result_transforms res)) \<and>
   (update_animations pf anchors data' = Inr res' \<longrightarrow>
      list_all translate_in_range (result_transforms res'))"
  using analyze_image_translate_range update_animations_translate_range by blast

theorem translations_clamped_witness:
  "\<exists>res res'.
     analyze_image no_float lower_id detect_example = Inr res \<and>
     update_animations no_float regen_anchors regen_example = Inr res' \<and>
     length (result_transforms res) = 2 \<and>
     length (result_transforms res') = 1 \<and>
     list_all translate_in_range (result_transforms res) \<and>
     list_all translate_in_range (result_transforms res')"
proof -
  obtain res where res: "analyze_image no_float lower_id detect_example = Inr res"
    and n: "length (result_transforms res) = 2"
    by (simp add: detect_eval result_transforms_def result_animations_def
        animation_keyframes_def keyframe_transforms_def)
  obtain res' where res': "update_animations no_float regen_anchors regen_example = Inr res'"
    and n': "length (result_transforms res') = 1"
    by (simp add: regen_eval result_transforms_def result_animations_def
        animation_keyframes_def keyframe_transforms_def)
  from translations_clamped[of no_float lower_id detect_example res regen_anchors
      regen_example res'] res res' n n'
  show ?thesis by blast
qed

text \<open>
  C1. The claim holds of the specification and fails on the code. In the specification's
  own scenario (model flag false, displacement 0.02) the loop counts the anchor as
  corrected, \<^verbatim>\<open>corrected_count = 1\<close>, and yet writes \<^verbatim>\<open>corrected: false\<close> into the output
  anchor: line 164 tests \<^verbatim>\<open>corrected.get('corrected', False) or dist > 0.005\<close>, line 170
  stores \<^verbatim>\<open>corrected.get('corrected', dist > 0.005)\<close>, where the threshold only replaces a
  missing flag.
\<close>

theorem refine_scenario_flag_false_count_one:
  "refine_anchors no_float round6_half_even scenario_anchors scenario_response =
     Inr (JObj [(''status'', JStr ''success''),
                (''anchors'', JArr [JObj [(''id'', JStr ''a''), (''x'', JNum 0.12),
                                          (''y'', JNum 0.10), (''corrected'', JBool False)]]),
                (''corrected_count'', JNum 1),
                (''total_movement'', JNum 0.02)])"
  by (simp add: refine_eval scenario_anchors_def scenario_response_def)

text \<open>
  C3. In every success result of the anchor-refinement merge the anchor list has the ids
  of the input list, in the same order and as many; \<^verbatim>\<open>total_movement\<close> is
  \<^verbatim>\<open>round(., 6)\<close> of the sum of the Euclidean displacements of the anchors that have an
  entry in the correction map (the last correction of the response with the anchor's id),
  hence a multiple of \<open>10\<^sup>-\<^sup>6\<close> no farther than half of \<open>10\<^sup>-\<^sup>6\<close> from that sum; an
  anchor without an entry keeps its original coordinates and is marked not corrected.
\<close>

theorem merge_total_and_order_preserving:
  assumes "refine_anchors pf rnd anchors data = Inr res" and "rounds_to_6_digits rnd"
  shows "\<exists>cm total.
           corrected_map_of (fld data ''anchors'') = Inr cm \<and>
           (\<forall>orig. correction_of cm orig = last_correction (anchors_of data) orig) \<and>
           length (anchors_of res) = length (elems anchors) \<and>
           map (\<lambda>a. fld a ''id'') (anchors_of res) = map (\<lambda>a. fld a ''id'') (elems anchors) \<and>
           fld res ''total_movement'' = JNum total \<and>
           total = rnd (sum_list (map (spec_movement pf cm) (elems anchors))) \<and>
           (\<exists>n::int. total = of_int n / 1000000) \<and>
           \<bar>total - sum_list (map (spec_movement pf cm) (elems anchors))\<bar> \<le> 1 / 2000000 \<and>
           list_all2 (\<lambda>orig out. correction_of cm orig \<noteq> None \<or> out = kept_entry orig)
             (elems anchors) (anchors_of res)"
proof -
  from refine_anchors_result[OF assms(1)] obtain cm where
    cm: "corrected_map_of (fld data ''anchors'') = Inr cm"
    and out: "anchors_of res = map (merged_entry pf cm) (elems anchors)"
    and total: "fld res ''total_movement'' =
             JNum (rnd (sum_list (map (spec_movement pf cm) (elems anchors))))"
    by blast
  define total where "total = rnd (sum_list (map (spec_movement pf cm) (elems anchors)))"
  have t: "fld res ''total_movement'' = JNum total"
    unfolding total_def by (rule total)
  from assms(2) have digits: "\<exists>n::int. total = of_int n / 1000000"
    and near: "\<bar>total - sum_list (map (spec_movement pf cm) (elems anchors))\<bar> \<le> 1 / 2000000"
    unfolding total_def rounds_to_6_digits_def by blast+
  have len: "length (anchors_of res) = length (elems anchors)"
    unfolding out by simp
  have ids: "map (\<lambda>a. fld a ''id'') (anchors_of res) = map (\<lambda>a. fld a ''id'') (elems anchors)"
    unfolding out by (simp add: merged_entry_id)
  have kept: "list_all2 (\<lambda>orig out. correction_of cm orig \<noteq> None \<or> out = kept_entry orig)
             (elems anchors) (anchors_of res)"
    unfolding out by (rule list_all2_map_same) (auto simp: merged_entry_def split: option.splits)
  have last: "\<forall>orig. correction_of cm orig = last_correction (anchors_of data) orig"
    unfolding anchors_of_def by (simp add: correction_of_last[OF cm])
  show ?thesis
    by (intro exI[of _ cm] exI[of _ total] conjI)
       (fact cm last len ids t total_def digits near kept)+
qed

theorem merge_total_and_order_preserving_witness:
  "\<exists>res cm.
     refine_anchors no_float round6_half_even two_anchors fine_correction = Inr res \<and>
     rounds_to_6_digits round6_half_even \<and>
     corrected_map_of (fld fine_correction ''anchors'') = Inr cm \<and>
     map (\<lambda>a. fld a ''id'') (anchors_of res) = [JStr ''head'', JStr ''tail''] \<and>
     correction_of cm (elems two_anchors ! 0) \<noteq> None \<and>
     correction_of cm (elems two_anchors ! 1) = None \<and>
     anchors_of res ! 1 = kept_entry (elems two_anchors ! 1) \<and>
     sum_list (map (spec_movement no_float cm) (elems two_anchors)) = 0.3765433 \<and>
     fld res ''total_movement'' = JNum 0.376543 \<and>
     fld res ''total_movement'' =
       JNum (round6_half_even (sum_list (map (spec_movement no_float cm) (elems two_anchors))))"
proof -
  obtain res where res: "refine_anchors no_float round6_half_even two_anchors fine_correction = Inr res"
    and ids: "map (\<lambda>a. fld a ''id'') (anchors_of res) = [JStr ''head'', JStr ''tail'']"
    and second: "anchors_of res ! 1 = kept_entry (elems two_anchors ! 1)"
    and total: "fld res ''total_movement'' = JNum 0.376543"
    by (simp add: refine_eval two_anchors_def fine_correction_def anchors_of_def kept_entry_def)
  have r: "rounds_to_6_digits round6_half_even"
    by (rule round6_half_even_rounds)
  from merge_total_and_order_preserving[OF res r] obtain cm where
    cm: "corrected_map_of (fld fine_correction ''anchors'') = Inr cm"
    and sum: "fld res ''total_movement'' =
       JNum (round6_half_even (sum_list (map (spec_movement no_float cm) (elems two_anchors))))"
    by blast
  from cm have c: "correction_of cm (elems two_anchors ! 0) \<noteq> None"
    "correction_of cm (elems two_anchors ! 1) = None"
    by (auto simp: refine_eval two_anchors_def fine_correction_def correction_of_def)
  from cm have s: "sum_list (map (spec_movement no_float cm) (elems two_anchors)) = 0.3765433"
    by (auto simp: refine_eval two_anchors_def fine_correction_def correction_of_def
        spec_movement_def spec_displacement_def spec_corrected_x_def spec_corrected_y_def
        get_or_def real_of_def)
  show ?thesis
    by (intro exI[of _ res] exI[of _ cm] conjI) (fact res r cm ids c second s total sum)+
qed

text \<open>
  C5 (as amended). Every anchor in a success result of Detect has \<^verbatim>\<open>x\<close> and \<^verbatim>\<open>y\<close> in
  \<open>[0, 1]\<close>, each axis clamped on its own. In a success result of Refine this holds for
  every anchor that has an entry in the correction map; an anchor without an entry keeps
  the coordinates of the input as they are.
\<close>

theorem anchor_coordinates_clamped:
  "(analyze_image pf lw data = Inr res \<longrightarrow> list_all unit_coords (anchors_of res)) \<and>
   (refine_anchors pf rnd anchors data' = Inr res' \<longrightarrow>
      (\<exists>cm. corrected_map_of (fld data' ''anchors'') = Inr cm \<and>
         list_all2 (\<lambda>orig out.
             if correction_of cm orig = None
             then fld out ''x'' = fld orig ''x'' \<and> fld out ''y'' = fld orig ''y''
             else unit_coords out)
           (elems anchors) (anchors_of res')))"
proof (intro conjI impI)
  assume "analyze_image pf lw data = Inr res"
  then show "list_all unit_coords (anchors_of res)"
    by (rule analyze_image_unit_coords)
next
  assume "refine_anchors pf rnd anchors data' = Inr res'"
  from refine_anchors_result[OF this] obtain cm where
    cm: "corrected_map_of (fld data' ''anchors'') = Inr cm"
    and out: "anchors_of res' = map (merged_entry pf cm) (elems anchors)"
    by blast
  have "list_all2 (\<lambda>orig out.
             if correction_of cm orig = None
             then fld out ''x'' = fld orig ''x'' \<and> fld out ''y'' = fld orig ''y''
             else unit_coords out)
           (elems anchors) (anchors_of res')"
    unfolding out
    by (rule list_all2_map_same)
       (auto simp: merged_entry_def kept_entry_def corrected_entry_unit)
  with cm show "\<exists>cm. corrected_map_of (fld data' ''anchors'') = Inr cm \<and>
         list_all2 (\<lambda>orig out.
             if correction_of cm orig = None
             then fld out ''x'' = fld orig ''x'' \<and> fld out ''y'' = fld orig ''y''
             else unit_coords out)
           (elems anchors) (anchors_of res')"
    by blast
qed

theorem anchor_coordinates_clamped_witness:
  "\<exists>res res'.
     analyze_image no_float lower_id detect_example = Inr res \<and>
     refine_anchors no_float round6_half_even two_anchors one_correction = Inr res' \<and>
     map (\<lambda>a. (fld a ''x'', fld a ''y'')) (anchors_of res) =
       [(JNum 0.5, JNum 1), (JNum 0.5, JNum 0.8)] \<and>
     map (\<lambda>a. (fld a ''x'', fld a ''y'')) (anchors_of res') =
       [(JNum 0.25, JNum 1), (JNum 0.75, JNum 0.5)] \<and>
     list_all unit_coords (anchors_of res) \<and>
     list_all unit_coords (anchors_of res') \<and>
     (\<exists>cm. corrected_map_of (fld one_correction ''anchors'') = Inr cm \<and>
         list_all2 (\<lambda>orig out.
             if correction_of cm orig = None
             then fld out ''x'' = fld orig ''x'' \<and> fld out ''y'' = fld orig ''y''
             else unit_coords out)
           (elems two_anchors) (anchors_of res'))"
proof -
  obtain res where res: "analyze_image no_float lower_id detect_example = Inr res"
    and xy: "map (\<lambda>a. (fld a ''x'', fld a ''y'')) (anchors_of res) =
       [(JNum 0.5, JNum 1), (JNum 0.5, JNum 0.8)]"
    by (simp add: detect_eval anchors_of_def)
  obtain res' where res': "refine_anchors no_float round6_half_even two_anchors one_correction = Inr res'"
    and xy': "map (\<lambda>a. (fld a ''x'', fld a ''y'')) (anchors_of res') =
       [(JNum 0.25, JNum 1), (JNum 0.75, JNum 0.5)]"
    and unit': "list_all unit_coords (anchors_of res')"
    by (simp add: refine_eval two_anchors_def one_correction_def anchors_of_def unit_coords_def)
  note inst = anchor_coordinates_clamped[of no_float lower_id detect_example res
      round6_half_even two_anchors one_correction res']
  from inst res have unit: "list_all unit_coords (anchors_of res)" by blast
  from inst res' have kept: "\<exists>cm. corrected_map_of (fld one_correction ''anchors'') = Inr cm \<and>
         list_all2 (\<lambda>orig out.
             if correction_of cm orig = None
             then fld out ''x'' = fld orig ''x'' \<and> fld out ''y'' = fld orig ''y''
             else unit_coords out)
           (elems two_anchors) (anchors_of res')" by blast
  show ?thesis
    by (intro exI[of _ res] exI[of _ res'] conjI) (fact res res' xy xy' unit unit' kept)+
qed

text \<open>
  C5 as stated fails for Refine: an original anchor with \<^verbatim>\<open>x = 1.5\<close> that the model does
  not return is copied into the success result with \<^verbatim>\<open>x = 1.5\<close>.
\<close>

theorem refine_keeps_outside_anchor_counterexample:
  "refine_anchors no_float round6_half_even outside_anchor other_correction =
     Inr (JObj [(''status'', JStr ''success''),
                (''anchors'', JArr [JObj [(''id'', JStr ''a''), (''x'', JNum 1.5),
                                          (''y'', JNum 0.5), (''corrected'', JBool False)]]),
                (''corrected_count'', JNum 0),
                (''total_movement'', JNum 0)]) \<and>
   \<not> (1.5 :: real) \<le> 1"
  by (simp add: refine_eval outside_anchor_def other_correction_def)

text \<open>
  C6 (as amended). In Detect a model-response anchor without \<^verbatim>\<open>x\<close> (or \<^verbatim>\<open>y\<close>) gets the
  coordinate 0.5. In Refine a correction without \<^verbatim>\<open>x\<close> (or \<^verbatim>\<open>y\<close>) takes the coordinate
  of the original anchor, which is then clamped into \<open>[0, 1]\<close>.
\<close>

theorem missing_coordinate_defaults:
  "(analyze_image pf lw data = Inr res \<longrightarrow>
      list_all2 (\<lambda>a a'.
          (\<not> has_key a ''x'' \<longrightarrow> fld a' ''x'' = JNum 0.5) \<and>
          (\<not> has_key a ''y'' \<longrightarrow> fld a' ''y'' = JNum 0.5))
        (anchors_of data) (anchors_of res)) \<and>
   (refine_anchors pf rnd anchors data' = Inr res' \<longrightarrow>
      (\<exists>cm. corrected_map_of (fld data' ''anchors'') = Inr cm \<and>
         list_all2 (\<lambda>orig out. \<forall>corr. correction_of cm orig = Some corr \<longrightarrow>
             (\<not> has_key corr ''x'' \<longrightarrow>
                fld out ''x'' = JNum (clamp01 (real_of pf (fld orig ''x'')))) \<and>
             (\<not> has_key corr ''y'' \<longrightarrow>
                fld out ''y'' = JNum (clamp01 (real_of pf (fld orig ''y'')))))
           (elems anchors) (anchors_of res')))"
proof (intro conjI impI)
  assume "analyze_image pf lw data = Inr res"
  from analyze_image_anchors[OF this]
  show "list_all2 (\<lambda>a a'.
          (\<not> has_key a ''x'' \<longrightarrow> fld a' ''x'' = JNum 0.5) \<and>
          (\<not> has_key a ''y'' \<longrightarrow> fld a' ''y'' = JNum 0.5))
        (anchors_of data) (anchors_of res)"
    by (rule list_all2_mono) (rule sanitize_anchor_default)
next
  assume "refine_anchors pf rnd anchors data' = Inr res'"
  from refine_anchors_result[OF this] obtain cm where
    cm: "corrected_map_of (fld data' ''anchors'') = Inr cm"
    and out: "anchors_of res' = map (merged_entry pf cm) (elems anchors)"
    by blast
  have "list_all2 (\<lambda>orig out. \<forall>corr. correction_of cm orig = Some corr \<longrightarrow>
             (\<not> has_key corr ''x'' \<longrightarrow>
                fld out ''x'' = JNum (clamp01 (real_of pf (fld orig ''x'')))) \<and>
             (\<not> has_key corr ''y'' \<longrightarrow>
                fld out ''y'' = JNum (clamp01 (real_of pf (fld orig ''y'')))))
           (elems anchors) (anchors_of res')"
    unfolding out
    by (rule list_all2_map_same)
       (auto simp: merged_entry_def corrected_entry_def spec_corrected_x_def
          spec_corrected_y_def get_or_missing)
  with cm show "\<exists>cm. corrected_map_of (fld data' ''anchors'') = Inr cm \<and>
         list_all2 (\<lambda>orig out. \<forall>corr. correction_of cm orig = Some corr \<longrightarrow>
             (\<not> has_key corr ''x'' \<longrightarrow>
                fld out ''x'' = JNum (clamp01 (real_of pf (fld orig ''x'')))) \<and>
             (\<not> has_key corr ''y'' \<longrightarrow>
                fld out ''y'' = JNum (clamp01 (real_of pf (fld orig ''y'')))))
           (elems anchors) (anchors_of res')"
    by blast
qed

theorem missing_coordinate_defaults_witness:
  "\<exists>res res'.
     analyze_image no_float lower_id detect_example = Inr res \<and>
     refine_anchors no_float round6_half_even two_anchors one_correction = Inr res' \<and>
     \<not> has_key (anchors_of detect_example ! 1) ''x'' \<and>
     fld (anchors_of res ! 1) ''x'' = JNum 0.5 \<and>
     fld (anchors_of res' ! 0) ''x'' = JNum 0.25 \<and>
     list_all2 (\<lambda>a a'.
          (\<not> has_key a ''x'' \<longrightarrow> fld a' ''x'' = JNum 0.5) \<and>
          (\<not> has_key a ''y'' \<longrightarrow> fld a' ''y'' = JNum 0.5))
        (anchors_of detect_example) (anchors_of res) \<and>
     (\<exists>cm. corrected_map_of (fld one_correction ''anchors'') = Inr cm \<and>
         list_all2 (\<lambda>orig out. \<forall>corr. correction_of cm orig = Some corr \<longrightarrow>
             (\<not> has_key corr ''x'' \<longrightarrow>
                fld out ''x'' = JNum (clamp01 (real_of no_float (fld orig ''x'')))) \<and>
             (\<not> has_key corr ''y'' \<longrightarrow>
                fld out ''y'' = JNum (clamp01 (real_of no_float (fld orig ''y'')))))
           (elems two_anchors) (anchors_of res'))"
proof -
  obtain res where res: "analyze_image no_float lower_id detect_example = Inr res"
    and x: "fld (anchors_of res ! 1) ''x'' = JNum 0.5"
    by (simp add: detect_eval anchors_of_def)
  obtain res' where res': "refine_anchors no_float round6_half_even two_anchors one_correction = Inr res'"
    and x': "fld (anchors_of res' ! 0) ''x'' = JNum 0.25"
    by (simp add: refine_eval two_anchors_def one_correction_def anchors_of_def)
  have nokey: "\<not> has_key (anchors_of detect_example ! 1) ''x''"
    by (simp add: detect_example_def anchors_of_def has_key_def)
  note inst = missing_coordinate_defaults[of no_float lower_id detect_example res
      round6_half_even two_anchors one_correction res']
  from inst res have d: "list_all2 (\<lambda>a a'.
          (\<not> has_key a ''x'' \<longrightarrow> fld a' ''x'' = JNum 0.5) \<and>
          (\<not> has_key a ''y'' \<longrightarrow> fld a' ''y'' = JNum 0.5))
        (anchors_of detect_example) (anchors_of res)" by blast
  from inst res' have r: "\<exists>cm. corrected_map_of (fld one_correction ''anchors'') = Inr cm \<and>
         list_all2 (\<lambda>orig out. \<forall>corr. correction_of cm orig = Some corr \<longrightarrow>
             (\<not> has_key corr ''x'' \<longrightarrow>
                fld out ''x'' = JNum (clamp01 (real_of no_float (fld orig ''x'')))) \<and>
             (\<not> has_key corr ''y'' \<longrightarrow>
                fld out ''y'' = JNum (clamp01 (real_of no_float (fld orig ''y'')))))
           (elems two_anchors) (anchors_of res')" by blast
  show ?thesis
    by (intro exI[of _ res] exI[of _ res'] conjI) (fact res res' nokey x x' d r)+
qed

text \<open>
  C6 as stated fails for Refine: a correction that gives neither \<^verbatim>\<open>x\<close> nor \<^verbatim>\<open>y\<close> for the
  anchor at \<open>(0.2, 0.3)\<close> leaves it at \<open>(0.2, 0.3)\<close>; it is not moved to \<open>(0.5, 0.5)\<close>.
\<close>

theorem refine_default_is_original_counterexample:
  "refine_anchors no_float round6_half_even corner_anchor bare_correction =
     Inr (JObj [(''status'', JStr ''success''),
                (''anchors'', JArr [JObj [(''id'', JStr ''a''), (''x'', JNum 0.2),
                                          (''y'', JNum 0.3), (''corrected'', JBool False)]]),
                (''corrected_count'', JNum 0),
                (''total_movement'', JNum 0)]) \<and>
   JNum 0.2 \<noteq> JNum 0.5 \<and> JNum 0.3 \<noteq> JNum 0.5"
  by (simp add: refine_eval corner_anchor_def bare_correction_def)

text \<open>
  C7. The claim holds of the specification and fails on the code. Line 155 tests
  \<^verbatim>\<open>bone.get('from') in anchor_ids and bone.get('to') in anchor_ids\<close>, and
  \<^verbatim>\<open>bone.get\<close> gives \<^verbatim>\<open>None\<close> for a missing field. Lines 148-149 derive an id only when
  the key \<^verbatim>\<open>id\<close> is missing, so an anchor with \<^verbatim>\<open>"id": null\<close> puts \<^verbatim>\<open>None\<close> into
  \<^verbatim>\<open>anchor_ids\<close>. For such a response a bone that has neither \<^verbatim>\<open>from\<close> nor \<^verbatim>\<open>to\<close> passes
  the validation that the comment of line 151 calls "bones reference valid anchors", and
  the operation returns a success result with that bone.
\<close>

theorem bone_without_ends_kept:
  "\<exists>res.
     analyze_image no_float lower_id null_id_example = Inr res \<and>
     fld res ''status'' = JStr ''success'' \<and>
     anchors_of res =
       [JObj [(''id'', JNull), (''x'', JNum 0.5), (''y'', JNum 0.5), (''type'', JStr ''joint'')]] \<and>
     bones_of res = [JObj [(''id'', JStr ''b'')]] \<and>
     \<not> has_key (JObj [(''id'', JStr ''b'')]) ''from'' \<and>
     \<not> has_key (JObj [(''id'', JStr ''b'')]) ''to''"
  by (simp add: detect_eval null_id_example_def anchors_of_def bones_of_def has_key_def)

text \<open>
  C8 (as amended). For Detect, a model response that is a JSON object with non-empty
  \<^verbatim>\<open>anchors\<close> and \<^verbatim>\<open>bones\<close> and without \<^verbatim>\<open>animations\<close> (or with an empty one) yields exactly
  \<^verbatim>\<open>{"status": "error", "message": "AI did not generate any animations"}\<close> and exit code
  1. For each of the three operations the exit code is non-zero if and only if the status
  of the printed result is \<^verbatim>\<open>error\<close>, which is the case if and only if the operation
  failed.
\<close>

theorem missing_animations_and_exit_code:
  "(truthy (fld (JObj kvs) ''anchors'') \<longrightarrow> truthy (fld (JObj kvs) ''bones'') \<longrightarrow>
    \<not> truthy (fld (JObj kvs) ''animations'') \<longrightarrow>
      result_dict m (analyze_image pf lw (JObj kvs)) =
        JObj [(''status'', JStr ''error''),
              (''message'', JStr ''AI did not generate any animations'')] \<and>
      main_exit (result_dict m (analyze_image pf lw (JObj kvs))) = 1) \<and>
   (main_exit (result_dict m (analyze_image pf lw data)) \<noteq> 0) =
     (fld (result_dict m (analyze_image pf lw data)) ''status'' = JStr ''error'') \<and>
   main_exit (result_dict m (analyze_image pf lw data)) =
     (if isl (analyze_image pf lw data) then 1 else 0) \<and>
   (main_exit (result_dict m (refine_anchors pf rnd anchors data)) \<noteq> 0) =
     (fld (result_dict m (refine_anchors pf rnd anchors data)) ''status'' = JStr ''error'') \<and>
   main_exit (result_dict m (refine_anchors pf rnd anchors data)) =
     (if isl (refine_anchors pf rnd anchors data) then 1 else 0) \<and>
   (main_exit (result_dict m (update_animations pf anchors data)) \<noteq> 0) =
     (fld (result_dict m (update_animations pf anchors data)) ''status'' = JStr ''error'') \<and>
   main_exit (result_dict m (update_animations pf anchors data)) =
     (if isl (update_animations pf anchors data) then 1 else 0)"
proof -
  have first: "truthy (fld (JObj kvs) ''anchors'') \<longrightarrow> truthy (fld (JObj kvs) ''bones'') \<longrightarrow>
    \<not> truthy (fld (JObj kvs) ''animations'') \<longrightarrow>
      result_dict m (analyze_image pf lw (JObj kvs)) =
        JObj [(''status'', JStr ''error''),
              (''message'', JStr ''AI did not generate any animations'')] \<and>
      main_exit (result_dict m (analyze_image pf lw (JObj kvs))) = 1"
    by (simp add: analyze_image_def absent_or_empty_JObj main_exit_def)
  have a: "(main_exit (result_dict m (analyze_image pf lw data)) \<noteq> 0) =
     (fld (result_dict m (analyze_image pf lw data)) ''status'' = JStr ''error'') \<and>
   main_exit (result_dict m (analyze_image pf lw data)) =
     (if isl (analyze_image pf lw data) then 1 else 0)"
    by (rule main_exit_result) (rule analyze_image_status)
  have r: "(main_exit (result_dict m (refine_anchors pf rnd anchors data)) \<noteq> 0) =
     (fld (result_dict m (refine_anchors pf rnd anchors data)) ''status'' = JStr ''error'') \<and>
   main_exit (result_dict m (refine_anchors pf rnd anchors data)) =
     (if isl (refine_anchors pf rnd anchors data) then 1 else 0)"
    by (rule main_exit_result) (rule refine_anchors_status)
  have u: "(main_exit (result_dict m (update_animations pf anchors data)) \<noteq> 0) =
     (fld (result_dict m (update_animations pf anchors data)) ''status'' = JStr ''error'') \<and>
   main_exit (result_dict m (update_animations pf anchors data)) =
     (if isl (update_animations pf anchors data) then 1 else 0)"
    by (rule main_exit_result) (rule update_animations_status)
  from first a r u show ?thesis by blast
qed

theorem missing_animations_and_exit_code_witness:
  "truthy (fld no_animations_example ''anchors'') \<and>
   truthy (fld no_animations_example ''bones'') \<and>
   \<not> truthy (fld no_animations_example ''animations'') \<and>
   result_dict [] (analyze_image no_float lower_id no_animations_example) =
     JObj [(''status'', JStr ''error''),
           (''message'', JStr ''AI did not generate any animations'')] \<and>
   main_exit (result_dict [] (analyze_image no_float lower_id no_animations_example)) = 1 \<and>
   main_exit (result_dict [] (analyze_image no_float lower_id detect_example)) = 0"
proof -
  have h: "truthy (fld no_animations_example ''anchors'')"
    "truthy (fld no_animations_example ''bones'')"
    "\<not> truthy (fld no_animations_example ''animations'')"
    by (simp_all add: no_animations_example_def)
  have ok: "isl (analyze_image no_float lower_id detect_example) = False"
    by (simp add: detect_eval)
  have obj: "JObj (entries no_animations_example) = no_animations_example"
    by (simp add: no_animations_example_def)
  note inst = missing_animations_and_exit_code[of "entries no_animations_example" "[]"
      no_float lower_id detect_example round6_half_even regen_anchors]
  from inst[THEN conjunct1, unfolded obj] h
  have e: "result_dict [] (analyze_image no_float lower_id no_animations_example) =
     JObj [(''status'', JStr ''error''),
           (''message'', JStr ''AI did not generate any animations'')] \<and>
   main_exit (result_dict [] (analyze_image no_float lower_id no_animations_example)) = 1"
    by blast
  from inst[THEN conjunct2, THEN conjunct2, THEN conjunct1] ok
  have z: "main_exit (result_dict [] (analyze_image no_float lower_id detect_example)) = 0"
    by simp
  from h e z show ?thesis by blast
qed

text \<open>
  C8 as stated fails: the empty object is valid JSON without the key \<^verbatim>\<open>animations\<close>, and
  Detect answers it with the message of the first presence check.
\<close>

theorem missing_animations_message_counterexample:
  "fld (JObj []) ''animations'' = JNull \<and>
   result_dict [] (analyze_image no_float lower_id (JObj [])) =
     JObj [(''status'', JStr ''error''),
           (''message'', JStr ''AI did not detect any anchor points'')] \<and>
   ''AI did not detect any anchor points'' \<noteq> ''AI did not generate any animations''"
  by (simp add: analyze_image_def absent_or_empty_def)

text \<open>
  C9 (as amended). Let the anchor ids of the input be unique and its coordinates lie in
  \<open>[0, 1]\<close>. Re-running the merge on its own output, with the output anchors and their
  \<^verbatim>\<open>corrected\<close> flags as the model correction, succeeds, returns the same anchors and
  \<^verbatim>\<open>total_movement = 0\<close>, and \<^verbatim>\<open>corrected_count\<close> is the number of output anchors whose
  \<^verbatim>\<open>corrected\<close> flag is set (0 only when none is).
\<close>

theorem rerun_counts_flags_only:
  assumes first: "refine_anchors pf rnd anchors data = Inr res"
    and uniq: "distinct (map (\<lambda>a. py_hash (fld a ''id'')) (elems anchors))"
    and inside: "list_all unit_coords (elems anchors)"
    and rounds: "rounds_to_6_digits rnd"
  shows "\<exists>res2.
           refine_anchors pf rnd (fld res ''anchors'') (JObj [(''anchors'', fld res ''anchors'')])
             = Inr res2 \<and>
           anchors_of res2 = anchors_of res \<and>
           fld res2 ''total_movement'' = JNum 0 \<and>
           fld res2 ''corrected_count'' =
             JNum (real (length (filter (\<lambda>a. truthy (fld a ''corrected'')) (anchors_of res))))"
proof -
  from refine_anchors_Inr[OF first] have ne: "elems anchors \<noteq> []" by auto
  from refine_anchors_result[OF first] obtain cm where
    out: "anchors_of res = map (merged_entry pf cm) (elems anchors)"
    by blast
  have list: "fld res ''anchors'' = JArr (anchors_of res)"
    by (rule refine_anchors_list[OF first])
  have settled: "settled_entry a" if "a \<in> set (anchors_of res)" for a
  proof -
    from that obtain orig where orig: "orig \<in> set (elems anchors)"
      and a: "a = merged_entry pf cm orig"
      unfolding out by auto
    from refine_anchors_hashable[OF first orig] obtain k where
      k: "py_hash (fld orig ''id'') = Inr k" by blast
    from inside orig have "unit_coords orig" by (simp add: list_all_iff)
    with k show ?thesis unfolding a by (rule merged_entry_settled)
  qed
  have "map (\<lambda>a. py_hash (fld a ''id'')) (anchors_of res) =
        map (\<lambda>a. py_hash (fld a ''id'')) (elems anchors)"
    unfolding out by (simp add: merged_entry_id)
  with uniq have uniq': "distinct (map (\<lambda>a. py_hash (fld a ''id'')) (anchors_of res))"
    by simp
  from ne have ne': "anchors_of res \<noteq> []" unfolding out by simp
  have run: "refine_anchors pf rnd (fld res ''anchors'') (JObj [(''anchors'', fld res ''anchors'')]) =
      Inr (JObj [(''status'', JStr ''success''),
                 (''anchors'', JArr (anchors_of res)),
                 (''corrected_count'',
                    JNum (real (length (filter (\<lambda>a. truthy (fld a ''corrected''))
                      (anchors_of res))))),
                 (''total_movement'', JNum (rnd 0))])"
    unfolding list by (rule rerun_on_settled[OF settled uniq' ne'])
  show ?thesis
    unfolding run by (simp add: anchors_of_def rounds_zero[OF rounds])
qed

theorem rerun_counts_flags_only_witness:
  "\<exists>res res2.
     refine_anchors no_float round6_half_even scenario_anchors flagged_response = Inr res \<and>
     distinct (map (\<lambda>a. py_hash (fld a ''id'')) (elems scenario_anchors)) \<and>
     list_all unit_coords (elems scenario_anchors) \<and>
     rounds_to_6_digits round6_half_even \<and>
     refine_anchors no_float round6_half_even (fld res ''anchors'')
       (JObj [(''anchors'', fld res ''anchors'')]) = Inr res2 \<and>
     anchors_of res2 = anchors_of res \<and>
     length (filter (\<lambda>a. truthy (fld a ''corrected'')) (anchors_of res)) = 1 \<and>
     fld res2 ''total_movement'' = JNum 0 \<and>
     fld res2 ''corrected_count'' =
       JNum (real (length (filter (\<lambda>a. truthy (fld a ''corrected'')) (anchors_of res))))"
proof -
  obtain res where
    res: "refine_anchors no_float round6_half_even scenario_anchors flagged_response = Inr res"
    and out: "fld res ''anchors'' =
      JArr [JObj [(''id'', JStr ''a''), (''x'', JNum 0.12), (''y'', JNum 0.10),
                  (''corrected'', JBool True)]]"
    by (simp add: refine_eval scenario_anchors_def flagged_response_def)
  have uniq: "distinct (map (\<lambda>a. py_hash (fld a ''id'')) (elems scenario_anchors))"
    by (simp add: scenario_anchors_def)
  have inside: "list_all unit_coords (elems scenario_anchors)"
    by (simp add: scenario_anchors_def unit_coords_def)
  have r: "rounds_to_6_digits round6_half_even"
    by (rule round6_half_even_rounds)
  have n: "length (filter (\<lambda>a. truthy (fld a ''corrected'')) (anchors_of res)) = 1"
    unfolding anchors_of_def out by simp
  from rerun_counts_flags_only[OF res uniq inside r] obtain res2 where
    res2: "refine_anchors no_float round6_half_even (fld res ''anchors'')
       (JObj [(''anchors'', fld res ''anchors'')]) = Inr res2"
    and same: "anchors_of res2 = anchors_of res"
    and t: "fld res2 ''total_movement'' = JNum 0"
    and c: "fld res2 ''corrected_count'' =
       JNum (real (length (filter (\<lambda>a. truthy (fld a ''corrected'')) (anchors_of res))))"
    by blast
  show ?thesis
    by (intro exI[of _ res] exI[of _ res2] conjI) (fact res uniq inside r res2 same n t c)+
qed

text \<open>
  C9 as stated fails, and each condition of the amended claim is needed. When the first
  run marks the anchor as corrected, the second run on that output changes no coordinate
  and still returns \<^verbatim>\<open>corrected_count = 1\<close>. When the first run keeps an anchor that lies
  outside the image, the second run clamps it: \<^verbatim>\<open>total_movement = 0.5\<close>. When the first
  run keeps two anchors with the same id at different places, the second run moves the
  first onto the second: \<^verbatim>\<open>total_movement = 0.2\<close>.
\<close>

theorem rerun_counts_flag_counterexample:
  "refine_anchors no_float round6_half_even scenario_anchors flagged_response =
     Inr (JObj [(''status'', JStr ''success''),
                (''anchors'', JArr [JObj [(''id'', JStr ''a''), (''x'', JNum 0.12),
                                          (''y'', JNum 0.10), (''corrected'', JBool True)]]),
                (''corrected_count'', JNum 1),
                (''total_movement'', JNum 0.02)]) \<and>
   refine_anchors no_float round6_half_even
     (JArr [JObj [(''id'', JStr ''a''), (''x'', JNum 0.12), (''y'', JNum 0.10),
                  (''corrected'', JBool True)]])
     (JObj [(''anchors'',
         JArr [JObj [(''id'', JStr ''a''), (''x'', JNum 0.12), (''y'', JNum 0.10),
                     (''corrected'', JBool True)]])]) =
     Inr (JObj [(''status'', JStr ''success''),
                (''anchors'', JArr [JObj [(''id'', JStr ''a''), (''x'', JNum 0.12),
                                          (''y'', JNum 0.10), (''corrected'', JBool True)]]),
                (''corrected_count'', JNum 1),
                (''total_movement'', JNum 0)]) \<and>
   JNum 1 \<noteq> JNum 0 \<and>
   refine_anchors no_float round6_half_even outside_anchor other_correction =
     Inr (JObj [(''status'', JStr ''success''),
                (''anchors'', JArr [JObj [(''id'', JStr ''a''), (''x'', JNum 1.5),
                                          (''y'', JNum 0.5), (''corrected'', JBool False)]]),
                (''corrected_count'', JNum 0),
                (''total_movement'', JNum 0)]) \<and>
   refine_anchors no_float round6_half_even
     (JArr [JObj [(''id'', JStr ''a''), (''x'', JNum 1.5), (''y'', JNum 0.5),
                  (''corrected'', JBool False)]])
     (JObj [(''anchors'',
         JArr [JObj [(''id'', JStr ''a''), (''x'', JNum 1.5), (''y'', JNum 0.5),
                     (''corrected'', JBool False)]])]) =
     Inr (JObj [(''status'', JStr ''success''),
                (''anchors'', JArr [JObj [(''id'', JStr ''a''), (''x'', JNum 1),
                                          (''y'', JNum 0.5), (''corrected'', JBool False)]]),
                (''corrected_count'', JNum 1),
                (''total_movement'', JNum 0.5)]) \<and>
   JNum 0.5 \<noteq> JNum 0 \<and>
   refine_anchors no_float round6_half_even twin_anchors other_correction =
     Inr (JObj [(''status'', JStr ''success''),
                (''anchors'', JArr [JObj [(''id'', JStr ''a''), (''x'', JNum 0.2),
                                          (''y'', JNum 0.2), (''corrected'', JBool False)],
                                    JObj [(''id'', JStr ''a''), (''x'', JNum 0.4),
                                          (''y'', JNum 0.2), (''corrected'', JBool False)]]),
                (''corrected_count'', JNum 0),
                (''total_movement'', JNum 0)]) \<and>
   refine_anchors no_float round6_half_even
     (JArr [JObj [(''id'', JStr ''a''), (''x'', JNum 0.2), (''y'', JNum 0.2),
                  (''corrected'', JBool False)],
            JObj [(''id'', JStr ''a''), (''x'', JNum 0.4), (''y'', JNum 0.2),
                  (''corrected'', JBool False)]])
     (JObj [(''anchors'',
         JArr [JObj [(''id'', JStr ''a''), (''x'', JNum 0.2), (''y'', JNum 0.2),
                     (''corrected'', JBool False)],
               JObj [(''id'', JStr ''a''), (''x'', JNum 0.4), (''y'', JNum 0.2),
                     (''corrected'', JBool False)]])]) =
     Inr (JObj [(''status'', JStr ''success''),
                (''anchors'', JArr [JObj [(''id'', JStr ''a''), (''x'', JNum 0.4),
                                          (''y'', JNum 0.2), (''corrected'', JBool False)],
                                    JObj [(''id'', JStr ''a''), (''x'', JNum 0.4),
                                          (''y'', JNum 0.2), (''corrected'', JBool False)]]),
                (''corrected_count'', JNum 1),
                (''total_movement'', JNum 0.2)]) \<and>
   JNum 0.2 \<noteq> JNum 0"
  by (simp add: refine_eval scenario_anchors_def flagged_response_def outside_anchor_def
      other_correction_def twin_anchors_def)

text \<open>
  C10. In a success result of Regenerate each keyframe gives transforms for exactly those
  anchor ids of the response's keyframe that are ids of the supplied anchors: an entry
  with an unknown id is removed, the others remain. In a success result of Detect each
  keyframe gives transforms for the same anchor ids as the response's keyframe, whether
  or not they are ids of the sanitized anchors, and their translations are clamped.
\<close>

theorem dangling_references_pruned_only_in_regenerate:
  "(update_animations pf anchors data = Inr res \<longrightarrow>
      list_all2 (list_all2 (\<lambda>kf kf'.
          kf_keys kf' = {k \<in> kf_keys kf. JStr k \<in> anchor_keys (elems anchors)}))
        (keyframes_of data) (keyframes_of res)) \<and>
   (analyze_image pf lw data' = Inr res' \<longrightarrow>
      list_all2 (list_all2 (\<lambda>kf kf'. kf_keys kf' = kf_keys kf))
        (keyframes_of data') (keyframes_of res') \<and>
      list_all translate_in_range (result_transforms res'))"
  using update_animations_keys analyze_image_keys analyze_image_translate_range by blast

theorem dangling_references_pruned_only_in_regenerate_witness:
  "\<exists>res res'.
     update_animations no_float regen_anchors regen_example = Inr res \<and>
     analyze_image no_float lower_id detect_example = Inr res' \<and>
     map (map kf_keys) (keyframes_of regen_example) = [ [{''hip'', ''ghost''}] ] \<and>
     map (map kf_keys) (keyframes_of res) = [ [{''hip''}] ] \<and>
     map (map kf_keys) (keyframes_of detect_example) = [ [{''hip'', ''ghost''}] ] \<and>
     map (map kf_keys) (keyframes_of res') = [ [{''hip'', ''ghost''}] ] \<and>
     JStr ''ghost'' \<notin> anchor_keys (anchors_of res') \<and>
     list_all2 (list_all2 (\<lambda>kf kf'.
          kf_keys kf' = {k \<in> kf_keys kf. JStr k \<in> anchor_keys (elems regen_anchors)}))
        (keyframes_of regen_example) (keyframes_of res) \<and>
     list_all2 (list_all2 (\<lambda>kf kf'. kf_keys kf' = kf_keys kf))
        (keyframes_of detect_example) (keyframes_of res')"
proof -
  note obs = keyframes_of_def result_animations_def animation_keyframes_def kf_keys_def
  obtain res where res: "update_animations no_float regen_anchors regen_example = Inr res"
    and k: "map (map kf_keys) (keyframes_of res) = [ [{''hip''}] ]"
    by (simp add: regen_eval obs)
  obtain res' where res': "analyze_image no_float lower_id detect_example = Inr res'"
    and k': "map (map kf_keys) (keyframes_of res') = [ [{''hip'', ''ghost''}] ]"
    and g: "JStr ''ghost'' \<notin> anchor_keys (anchors_of res')"
    by (simp add: detect_eval obs anchor_keys_def anchors_of_def)
  have i: "map (map kf_keys) (keyframes_of regen_example) = [ [{''hip'', ''ghost''}] ]"
    "map (map kf_keys) (keyframes_of detect_example) = [ [{''hip'', ''ghost''}] ]"
    by (simp_all add: regen_example_def detect_example_def example_animations_def
        example_keyframe_def obs)
  note inst = dangling_references_pruned_only_in_regenerate[of no_float regen_anchors
      regen_example res lower_id detect_example res']
  from inst res have a: "list_all2 (list_all2 (\<lambda>kf kf'.
          kf_keys kf' = {k \<in> kf_keys kf. JStr k \<in> anchor_keys (elems regen_anchors)}))
        (keyframes_of regen_example) (keyframes_of res)" by blast
  from inst res' have b: "list_all2 (list_all2 (\<lambda>kf kf'. kf_keys kf' = kf_keys kf))
        (keyframes_of detect_example) (keyframes_of res')" by blast
  show ?thesis
    by (intro exI[of _ res] exI[of _ res'] conjI) (fact res res' i k k' g a b)+
qed


end
